theory Spec2Isabelle
  imports Complex_Main "HOL-Library.Product_Lexorder"
begin

section \<open>Uplift report: a shallow embedding of lib/helpers.py\<close>

text \<open>
  The theory follows the class \<open>Helpers\<close> of \<open>src/lib/helpers.py\<close>: mark extraction,
  deduplication of attributions, the merge into one row per user, the bootstrap
  confidence interval, the KPI algebra of \<open>_uplift\<close> and the assembly of the report.
  Python names that start with an underscore carry the prefix \<open>Helpers_\<close> instead.

  Conventions of the embedding.
  \<^item> A data frame is the list of its rows, in row order; each schema is a record.
  \<^item> Every exception the code can raise on a frame of the right schema is a value of
    \<open>error\<close>, and a function that can raise returns \<open>error + 'a\<close>.
  \<^item> A finite float64 is the real number it denotes: rounding is not modelled. The
    values \<open>inf\<close>, \<open>-inf\<close> and \<open>nan\<close>, which numpy's division returns instead of
    raising, are modelled (\<open>fl\<close>). A zero has no sign; every zero denominator of
    \<open>_uplift\<close> is a difference of equal values or an empty sum, hence \<open>+0.0\<close>.
  \<^item> A missing cell (pandas \<open>NaN\<close>) of a numeric column is \<open>None\<close>.
  \<^item> Sorting a frame is a stable sort by the key columns. (pandas sorts by several
    columns stably; its default sort by one column need not keep the order of rows with
    equal keys, and no property below is about that order.)
  \<^item> The random generator is a stream of draws and a position in it; the position is
    passed on explicitly.
\<close>

subsection \<open>Errors and floats\<close>

datatype error = KeyError | NameError | UnboundLocalError | IndexError | AttributeError

datatype fl = Fin real | PInf | NInf | NaN

fun fl_neg :: "fl \<Rightarrow> fl" where
  "fl_neg (Fin x) = Fin (- x)"
| "fl_neg PInf = NInf"
| "fl_neg NInf = PInf"
| "fl_neg NaN = NaN"

fun fl_add :: "fl \<Rightarrow> fl \<Rightarrow> fl" where
  "fl_add NaN _ = NaN"
| "fl_add _ NaN = NaN"
| "fl_add (Fin x) (Fin y) = Fin (x + y)"
| "fl_add PInf NInf = NaN"
| "fl_add NInf PInf = NaN"
| "fl_add PInf _ = PInf"
| "fl_add _ PInf = PInf"
| "fl_add NInf _ = NInf"
| "fl_add _ NInf = NInf"

definition fl_sub :: "fl \<Rightarrow> fl \<Rightarrow> fl" where
  "fl_sub a b = fl_add a (fl_neg b)"

text \<open>The sign of a float: 1, 0 or -1; \<open>nan\<close> has none.\<close>

fun fl_sign :: "fl \<Rightarrow> int option" where
  "fl_sign (Fin x) = Some (if 0 < x then 1 else if x < 0 then - 1 else 0)"
| "fl_sign PInf = Some 1"
| "fl_sign NInf = Some (- 1)"
| "fl_sign NaN = None"

definition signed_inf :: "int \<Rightarrow> fl" where
  "signed_inf s = (if 0 < s then PInf else if s < 0 then NInf else NaN)"

fun fl_mul :: "fl \<Rightarrow> fl \<Rightarrow> fl" where
  "fl_mul (Fin x) (Fin y) = Fin (x * y)"
| "fl_mul a b =
     (case (fl_sign a, fl_sign b) of
        (Some s, Some t) \<Rightarrow> signed_inf (s * t)
      | _ \<Rightarrow> NaN)"

text \<open>
  numpy's true division: a finite quotient, \<open>x / 0 = \<plusminus>inf\<close> by the sign of \<open>x\<close>,
  \<open>0 / 0 = nan\<close>, \<open>x / \<plusminus>inf = 0\<close>, \<open>\<plusminus>inf / \<plusminus>inf = nan\<close>.
\<close>

fun fl_div :: "fl \<Rightarrow> fl \<Rightarrow> fl" where
  "fl_div (Fin x) (Fin y) =
     (if y = 0 then (if 0 < x then PInf else if x < 0 then NInf else NaN)
      else Fin (x / y))"
| "fl_div NaN _ = NaN"
| "fl_div _ NaN = NaN"
| "fl_div (Fin x) _ = Fin 0"
| "fl_div PInf (Fin y) = (if y < 0 then NInf else PInf)"
| "fl_div NInf (Fin y) = (if y < 0 then PInf else NInf)"
| "fl_div _ _ = NaN"

text \<open>\<open>a < b\<close> on floats: false as soon as one side is \<open>nan\<close>.\<close>

fun fl_less :: "fl \<Rightarrow> fl \<Rightarrow> bool" where
  "fl_less (Fin x) (Fin y) = (x < y)"
| "fl_less NaN _ = False"
| "fl_less _ NaN = False"
| "fl_less NInf NInf = False"
| "fl_less NInf _ = True"
| "fl_less _ NInf = False"
| "fl_less PInf _ = False"
| "fl_less _ PInf = True"

text \<open>
  The position of a float in an ascending sort. A list of bootstrap means is all finite
  (non-empty sample) or all \<open>nan\<close> (empty sample); on both, sorting by this key is what
  \<open>list.sort\<close> returns.
\<close>

fun fl_rank :: "fl \<Rightarrow> int \<times> real" where
  "fl_rank NInf = (- 1, 0)"
| "fl_rank (Fin x) = (0, x)"
| "fl_rank PInf = (1, 0)"
| "fl_rank NaN = (2, 0)"

subsection \<open>Python built-ins\<close>

text \<open>\<open>int(x)\<close> of a float truncates towards zero.\<close>

definition py_int :: "real \<Rightarrow> int" where
  "py_int x = (if 0 \<le> x then \<lfloor>x\<rfloor> else \<lceil>x\<rceil>)"

text \<open>\<open>xs[i]\<close>: a negative index counts from the end, anything else out of range raises.\<close>

definition py_index :: "'a list \<Rightarrow> int \<Rightarrow> error + 'a" where
  "py_index xs i =
     (if 0 \<le> i \<and> i < int (length xs) then Inr (xs ! nat i)
      else if i < 0 \<and> - int (length xs) \<le> i then Inr (xs ! nat (int (length xs) + i))
      else Inl IndexError)"

text \<open>\<open>str(n)\<close> of an integer, for \<open>"c_{0}".format(campaign)\<close>.\<close>

fun digits :: "nat \<Rightarrow> string" where
  "digits n =
     (if n < 10 then [char_of (48 + n)]
      else digits (n div 10) @ [char_of (48 + n mod 10)])"

definition py_str :: "int \<Rightarrow> string" where
  "py_str i = (if i < 0 then CHR ''-'' # digits (nat (- i)) else digits (nat i))"

subsection \<open>Frames\<close>

text \<open>
  A row of the marks-and-spend table (\<open>_CSVHelpers.columns\<close>), after \<open>_improve_types\<close>:
  \<open>ts\<close> in seconds, \<open>user_id\<close> a 64-bit hash, \<open>ab_test_group\<close> the truth value of
  \<open>g == 'test'\<close>. A \<open>mark\<close> is such a row without its \<open>event_type\<close> column.
\<close>

record mark =
  ts :: int
  user_id :: int
  ab_test_group :: bool
  campaign_id :: int
  cost_eur :: "real option"

record event = mark +
  event_type :: string

text \<open>
  What \<open>_marked\<close> can be given: a frame that has the column \<open>event_type\<close>, or one that
  has lost it.
\<close>

datatype frame = Events "event list" | Marks "mark list"

text \<open>A row of the attributions table, \<open>partner_event\<close> dropped by the loader.\<close>

record attribution =
  a_ts :: int
  a_user_id :: int
  a_revenue_eur :: "real option"

text \<open>A row of the left join of marks and attributions; \<open>ts_y\<close> is missing without a match.\<close>

record merged =
  mg_user_id :: int
  mg_ab_test_group :: bool
  ts_x :: int
  ts_y :: "int option"
  mg_revenue_eur :: "real option"
  mg_conversion_count :: int

text \<open>A row of the users frame: one user.\<close>

record user_row =
  u_user_id :: int
  u_ab_test_group :: bool
  conversion_count :: int
  revenue_eur :: real

text \<open>
  Modelled from the spec: \<open>lib/const.py\<close> is not among the sources. \<open>TEST\<close> and
  \<open>CONTROL\<close> are the two values of the column \<open>ab_test_group\<close>, which
  \<open>_improve_types\<close> stores as \<open>g == 'test'\<close>.
\<close>

definition TEST :: bool where
  "TEST = True"

definition CONTROL :: bool where
  "CONTROL = False"

text \<open>\<open>drop_duplicates(subset)\<close>, \<open>keep='first'\<close>; with the identity as key, \<open>unique()\<close>.\<close>

fun drop_duplicates :: "('a \<Rightarrow> int) \<Rightarrow> 'a list \<Rightarrow> 'a list" where
  "drop_duplicates f [] = []"
| "drop_duplicates f (x # xs) = x # drop_duplicates f (filter (\<lambda>y. f y \<noteq> f x) xs)"

text \<open>\<open>Series.sum()\<close> skips missing cells.\<close>

definition nansum :: "real option list \<Rightarrow> real" where
  "nansum xs = sum_list (map (\<lambda>x. case x of None \<Rightarrow> 0 | Some v \<Rightarrow> v) xs)"

subsection \<open>Mark extraction and ad spend\<close>

text \<open>
  \<open>_marked\<close>: an empty frame is returned as it is; \<open>df.event_type\<close> raises on a frame
  without that column; otherwise the mark rows, without \<open>event_type\<close>, sorted by \<open>ts\<close>,
  the first row of each user kept.
\<close>

fun Helpers_marked :: "frame \<Rightarrow> error + frame" where
  "Helpers_marked (Events df) =
     (if df = [] then Inr (Events df)
      else
        let mark_df = filter (\<lambda>r. event_type r = ''mark'') df;
            mark_df = map mark.truncate mark_df;
            sorted_mark_df = sort_key ts mark_df;
            deduplicated_mark_df = drop_duplicates user_id sorted_mark_df
        in Inr (Marks deduplicated_mark_df))"
| "Helpers_marked (Marks df) =
     (if df = [] then Inr (Marks df) else Inl AttributeError)"

text \<open>The rows of a frame as the merge reads them: the columns of a mark.\<close>

fun mark_rows :: "frame \<Rightarrow> mark list" where
  "mark_rows (Events df) = map mark.truncate df"
| "mark_rows (Marks df) = df"

definition Helpers_calculate_ad_spend :: "event list \<Rightarrow> real" where
  "Helpers_calculate_ad_spend df =
     (let ad_spend_micros =
            nansum (map cost_eur
              (filter (\<lambda>r. event_type r = ''buying_conversion'' \<and> ab_test_group r = TEST) df))
      in ad_spend_micros / 10 ^ 6)"

subsection \<open>Deduplication of attributions\<close>

text \<open>Sort position of a cell that may be missing: \<open>sort_values\<close> puts \<open>NaN\<close> last.\<close>

fun na_last :: "real option \<Rightarrow> int \<times> real" where
  "na_last None = (1, 0)"
| "na_last (Some v) = (0, v)"

text \<open>\<open>a != b\<close> on cells: true as soon as one side is missing.\<close>

fun cell_ne :: "'a option \<Rightarrow> 'a option \<Rightarrow> bool" where
  "cell_ne (Some a) (Some b) = (a \<noteq> b)"
| "cell_ne _ _ = True"

text \<open>
  The filter of \<open>_drop_duplicates_in_attributions\<close> on one row and the row before it
  (\<open>shift(1)\<close>; the first row has none, and all three comparisons with a missing cell
  are true, true and false). The source compares the difference of
  \<open>pd.to_datetime(ts)\<close> and \<open>pd.to_datetime(last_ts)\<close> with \<open>max_timedelta\<close>; here
  timestamps and \<open>max_timedelta\<close> are integers in one unit.
\<close>

fun keep_row :: "int \<Rightarrow> attribution \<Rightarrow> attribution option \<Rightarrow> bool" where
  "keep_row max_timedelta r None = True"
| "keep_row max_timedelta r (Some prev) =
     (cell_ne (Some (a_user_id r)) (Some (a_user_id prev))
      \<or> cell_ne (a_revenue_eur r) (a_revenue_eur prev)
      \<or> a_ts r - a_ts prev > max_timedelta)"

definition shift1 :: "'a list \<Rightarrow> 'a option list" where
  "shift1 xs = None # map Some (butlast xs)"

definition Helpers_drop_duplicates_in_attributions :: "attribution list \<Rightarrow> int \<Rightarrow> attribution list" where
  "Helpers_drop_duplicates_in_attributions df max_timedelta =
     (let sorted_values = sort_key (\<lambda>r. (a_user_id r, na_last (a_revenue_eur r))) df;
          filtered = filter (\<lambda>(r, prev). keep_row max_timedelta r prev)
                       (zip sorted_values (shift1 sorted_values))
      in map fst filtered)"

subsection \<open>Merge into one row per user\<close>

text \<open>\<open>pd.merge(marks_df, attributions_df, on='user_id', how='left')\<close>, one mark row.\<close>

definition left_join_row :: "mark \<Rightarrow> attribution list \<Rightarrow> merged list" where
  "left_join_row m attributions_df =
     (let matches = filter (\<lambda>a. a_user_id a = user_id m) attributions_df
      in if matches = []
         then [\<lparr>mg_user_id = user_id m, mg_ab_test_group = ab_test_group m, ts_x = ts m,
                ts_y = None, mg_revenue_eur = None, mg_conversion_count = 0\<rparr>]
         else map (\<lambda>a. \<lparr>mg_user_id = user_id m, mg_ab_test_group = ab_test_group m,
                          ts_x = ts m, ts_y = Some (a_ts a),
                          mg_revenue_eur = a_revenue_eur a, mg_conversion_count = 0\<rparr>) matches)"

text \<open>\<open>ts_x < ts_y\<close>: false where \<open>ts_y\<close> is missing.\<close>

fun ts_before :: "int \<Rightarrow> int option \<Rightarrow> bool" where
  "ts_before x None = False"
| "ts_before x (Some y) = (x < y)"

text \<open>\<open>b * v\<close> for a truth value and a cell: a missing cell stays missing.\<close>

fun bool_times :: "bool \<Rightarrow> real option \<Rightarrow> real option" where
  "bool_times b None = None"
| "bool_times b (Some v) = Some (if b then v else 0)"

text \<open>
  \<open>_merge_into_users_df\<close>: the left join, the three column assignments, and
  \<open>groupby('user_id').agg(first, sum, sum)\<close>, whose rows come in ascending order of the
  key; every key has at least one row of the join, so \<open>first\<close> has a row to take.
\<close>

definition Helpers_merge_into_users_df :: "mark list \<Rightarrow> attribution list \<Rightarrow> user_row list" where
  "Helpers_merge_into_users_df marks_df attributions_df =
     (let merged_df = concat (map (\<lambda>m. left_join_row m attributions_df) marks_df);
          merged_df = map (\<lambda>r. r\<lparr>mg_conversion_count := (if ts_y r = None then 0 else 1)\<rparr>) merged_df;
          merged_df = map (\<lambda>r. r\<lparr>mg_conversion_count :=
                              (if ts_before (ts_x r) (ts_y r) then 1 else 0) * mg_conversion_count r\<rparr>) merged_df;
          merged_df = map (\<lambda>r. r\<lparr>mg_revenue_eur :=
                              bool_times (ts_before (ts_x r) (ts_y r)) (mg_revenue_eur r)\<rparr>) merged_df;
          keys = sort (remdups (map mg_user_id merged_df))
      in map (\<lambda>k. let rows = filter (\<lambda>r. mg_user_id r = k) merged_df
                  in \<lparr>u_user_id = k,
                      u_ab_test_group = mg_ab_test_group (hd rows),
                      conversion_count = sum_list (map mg_conversion_count rows),
                      revenue_eur = nansum (map mg_revenue_eur rows)\<rparr>) keys)"

subsection \<open>Configuration and environment\<close>

text \<open>The attributes of a \<open>Helpers\<close> object that the report computation reads.\<close>

record helpers =
  groups :: "(string \<times> int list) list"
  per_campaign_results :: bool
  confidence_level :: real
  bootstrap_size :: int

text \<open>\<open>__init__\<close>: \<open>groups=None\<close> becomes the empty dictionary; a round bootstrap size loses one.\<close>

definition Helpers_init ::
  "(string \<times> int list) list option \<Rightarrow> bool \<Rightarrow> real \<Rightarrow> int \<Rightarrow> helpers" where
  "Helpers_init groups0 per_campaign_results0 confidence_level0 bootstrap_size0 =
     \<lparr>groups = (case groups0 of None \<Rightarrow> [] | Some d \<Rightarrow> d),
      per_campaign_results = per_campaign_results0,
      confidence_level = confidence_level0,
      bootstrap_size =
        (if bootstrap_size0 mod 10 = 0 then bootstrap_size0 - 1 else bootstrap_size0)\<rparr>"

text \<open>
  What the computation takes from outside the class: \<open>scipy.stats.binom.ppf\<close>, the
  draws of \<open>np.random\<close>, and the module-level name \<open>CONFIDENCE_LEVEL\<close>, which
  \<open>_uplift\<close> reads in its column labels and \<open>helpers.py\<close> itself neither defines nor
  imports (\<open>None\<close>: the name is unbound).
\<close>

record env =
  binom_ppf :: "real \<Rightarrow> int \<Rightarrow> real \<Rightarrow> fl"
  draws :: "nat \<Rightarrow> nat"
  CONFIDENCE_LEVEL :: "real option"

subsection \<open>Bootstrap confidence interval\<close>

text \<open>
  \<open>np.random.choice(sample, len(sample), replace=True)\<close>: as many draws as the sample
  is long, each an index into the sample; the generator is at position \<open>g\<close>.
\<close>

definition random_choice :: "(nat \<Rightarrow> nat) \<Rightarrow> nat \<Rightarrow> 'a list \<Rightarrow> 'a list" where
  "random_choice d g sample =
     map (\<lambda>j. sample ! (d (g + j) mod length sample)) [0..<length sample]"

text \<open>\<open>.mean()\<close>; of no value at all it is \<open>nan\<close>.\<close>

definition mean :: "real list \<Rightarrow> fl" where
  "mean xs = (if xs = [] then NaN else Fin (sum_list xs / real (length xs)))"

text \<open>
  The two positions that \<open>_bootstrap_mean_ci\<close> reads in the sorted means, and its list of
  resample means before sorting: resample \<open>i\<close> takes its draws from position
  \<open>g + i * len(sample)\<close> on.
\<close>

definition lower_index :: "helpers \<Rightarrow> int" where
  "lower_index self =
     py_int (((1 - confidence_level self) / 2) * of_int (bootstrap_size self + 1))"

definition upper_index :: "helpers \<Rightarrow> int" where
  "upper_index self =
     py_int (((1 - confidence_level self) / 2 + confidence_level self)
             * of_int (bootstrap_size self + 1))"

definition bootstrapped_means :: "helpers \<Rightarrow> (nat \<Rightarrow> nat) \<Rightarrow> nat \<Rightarrow> real list \<Rightarrow> fl list" where
  "bootstrapped_means self d g sample =
     map (\<lambda>i. mean (random_choice d (g + i * length sample) sample))
       [0..<nat (bootstrap_size self)]"

text \<open>
  \<open>_bootstrap_mean_ci\<close> (\<open>plot=False\<close>): the bounds and the generator's new position, or
  the \<open>IndexError\<close> of the first index that is out of range.
\<close>

definition Helpers_bootstrap_mean_ci ::
  "helpers \<Rightarrow> (nat \<Rightarrow> nat) \<Rightarrow> nat \<Rightarrow> real list \<Rightarrow> error + ((fl \<times> fl) \<times> nat)" where
  "Helpers_bootstrap_mean_ci self d g sample =
     (let means = sort_key fl_rank (bootstrapped_means self d g sample)
      in case py_index means (lower_index self) of
           Inl e \<Rightarrow> Inl e
         | Inr lower_bound \<Rightarrow>
             (case py_index means (upper_index self) of
                Inl e \<Rightarrow> Inl e
              | Inr upper_bound \<Rightarrow>
                  Inr ((lower_bound, upper_bound),
                       g + nat (bootstrap_size self) * length sample)))"

subsection \<open>The KPIs of one slice\<close>

text \<open>A cell of the report that holds a number or a sentinel text.\<close>

datatype cell = Num fl | Str string

text \<open>The values of \<open>dataframe_dict\<close>, in its order, under the names of the variables.\<close>

record kpis =
  ad_spend :: real
  total_revenue :: real
  control_group_size :: nat
  test_group_size :: nat
  ratio :: real
  control_converters :: int
  scaled_control_converters :: real
  test_converters :: int
  incremental_converters_estimate :: real
  incremental_converters_l_bound :: fl
  incremental_converters_u_bound :: fl
  cost_per_incremental_converter_estimate :: cell
  cost_per_incremental_converter_l_bound :: cell
  cost_per_incremental_converter_u_bound :: cell
  control_conversions :: int
  scaled_control_conversions :: real
  test_conversions :: int
  incremental_conversions_estimate :: real
  incremental_conversions_l_bound :: fl
  incremental_conversions_u_bound :: fl
  icpa_estimate :: cell
  icpa_l_bound :: cell
  icpa_u_bound :: cell
  control_cvr :: real
  test_cvr :: real
  uplift_estimate :: real
  uplift_l_bound :: fl
  uplift_u_bound :: fl
  control_revenue :: real
  scaled_control_revenue :: real
  test_revenue :: real
  incremental_revenue_estimate :: real
  incremental_revenue_l_bound :: fl
  incremental_revenue_u_bound :: fl
  iroas_estimate :: fl
  iroas_l_bound :: fl
  iroas_u_bound :: fl
  rev_per_conversion_control :: real
  rev_per_conversion_test :: real

text \<open>\<open>groupby('ab_test_group').get_group(name)\<close>: a group without rows is no group.\<close>

definition get_group :: "user_row list \<Rightarrow> bool \<Rightarrow> error + user_row list" where
  "get_group df name =
     (let rows = filter (\<lambda>r. u_ab_test_group r = name) df
      in if rows = [] then Inl KeyError else Inr rows)"

definition negative_converters :: string where
  "negative_converters = ''Negative incremental converters estimate''"

definition negative_conversions :: string where
  "negative_conversions = ''Negative incremental conversions estimate''"

definition negative_ci :: string where
  "negative_ci = ''CI contains negative value, cannot be intepreted''"

text \<open>
  The arithmetic of \<open>_uplift\<close>, statement by statement in the order of the source, from
  the ad spend, the two groups of users and the two pairs of bounds that
  \<open>_bootstrap_mean_ci\<close> returned (for the conversions, then for the revenue). Its value
  is \<open>dataframe_dict\<close>. The bounds of the CVR uplift are the ones assigned under
  \<open>control_cvr > 0\<close>; without that the dictionary is never built (see \<open>Helpers_uplift\<close>).
\<close>

definition uplift_kpis ::
  "helpers \<Rightarrow> env \<Rightarrow> real \<Rightarrow> user_row list \<Rightarrow> user_row list \<Rightarrow> fl \<times> fl \<Rightarrow> fl \<times> fl \<Rightarrow> kpis" where
  "uplift_kpis self e ad_spend_v test_users_df control_users_df conversions_ci revenue_ci =
    (let test_group_size_v = length test_users_df;
         control_group_size_v = length control_users_df;
         test_revenue_micros = sum_list (map revenue_eur test_users_df);
         test_conversions_v = sum_list (map conversion_count test_users_df);
         test_converters_v = int (length (filter (\<lambda>r. conversion_count r > 0) test_users_df));
         control_revenue_micros = sum_list (map revenue_eur control_users_df);
         control_conversions_v = sum_list (map conversion_count control_users_df);
         control_converters_v = int (length (filter (\<lambda>r. conversion_count r > 0) control_users_df));
         ratio_v = real test_group_size_v / real control_group_size_v;
         scaled_control_converters_v = of_int control_converters_v * ratio_v;
         no_treat_converters_l_bound =
           binom_ppf e ((1 - confidence_level self) / 2) (int control_group_size_v)
             (of_int control_converters_v / real control_group_size_v);
         no_treat_converters_u_bound =
           binom_ppf e ((1 - confidence_level self) / 2 + confidence_level self)
             (int control_group_size_v)
             (of_int control_converters_v / real control_group_size_v);
         incremental_converters_estimate_v =
           of_int test_converters_v - of_int control_converters_v * ratio_v;
         incremental_converters_l_bound_v =
           fl_sub (Fin (of_int test_converters_v)) (fl_mul no_treat_converters_u_bound (Fin ratio_v));
         incremental_converters_u_bound_v =
           fl_sub (Fin (of_int test_converters_v)) (fl_mul no_treat_converters_l_bound (Fin ratio_v));
         cost_estimate = fl_div (Fin ad_spend_v) (Fin incremental_converters_estimate_v);
         cost_l_bound = fl_div (Fin ad_spend_v) incremental_converters_u_bound_v;
         cost_u_bound = fl_div (Fin ad_spend_v) incremental_converters_l_bound_v;
         cost_estimate_c =
           (if fl_less cost_estimate (Fin 0) then Str negative_converters else Num cost_estimate);
         cost_l_bound_c =
           (if fl_less cost_u_bound (Fin 0) then Str negative_ci else Num cost_l_bound);
         cost_u_bound_c =
           (if fl_less cost_u_bound (Fin 0) then Str negative_ci else Num cost_u_bound);
         scaled_control_conversions_v = of_int control_conversions_v * ratio_v;
         mean_no_treat_conversions_l_bound = fst conversions_ci;
         mean_no_treat_conversions_u_bound = snd conversions_ci;
         scaled_no_treat_conversions_l_bound =
           fl_mul (fl_mul mean_no_treat_conversions_l_bound (Fin (real control_group_size_v)))
             (Fin ratio_v);
         scaled_no_treat_conversions_u_bound =
           fl_mul (fl_mul mean_no_treat_conversions_u_bound (Fin (real control_group_size_v)))
             (Fin ratio_v);
         incremental_conversions_estimate_v =
           of_int test_conversions_v - scaled_control_conversions_v;
         incremental_conversions_l_bound_v =
           fl_sub (Fin (of_int test_conversions_v)) scaled_no_treat_conversions_u_bound;
         incremental_conversions_u_bound_v =
           fl_sub (Fin (of_int test_conversions_v)) scaled_no_treat_conversions_l_bound;
         icpa_estimate_v = fl_div (Fin ad_spend_v) (Fin incremental_conversions_estimate_v);
         icpa_l_bound_v = fl_div (Fin ad_spend_v) incremental_conversions_u_bound_v;
         icpa_u_bound_v = fl_div (Fin ad_spend_v) incremental_conversions_l_bound_v;
         icpa_estimate_c =
           (if fl_less icpa_estimate_v (Fin 0) then Str negative_conversions else Num icpa_estimate_v);
         icpa_l_bound_c =
           (if fl_less icpa_u_bound_v (Fin 0) then Str negative_ci else Num icpa_l_bound_v);
         icpa_u_bound_c =
           (if fl_less icpa_u_bound_v (Fin 0) then Str negative_ci else Num icpa_u_bound_v);
         no_treat_cvr_l_bound =
           fl_div scaled_no_treat_conversions_l_bound (Fin (real test_group_size_v));
         no_treat_cvr_u_bound =
           fl_div scaled_no_treat_conversions_u_bound (Fin (real test_group_size_v));
         test_cvr_v = of_int test_conversions_v / real test_group_size_v;
         control_cvr_v = of_int control_conversions_v / real control_group_size_v;
         uplift_estimate_v = (if control_cvr_v > 0 then test_cvr_v / control_cvr_v - 1 else 0);
         uplift_l_bound_v = fl_sub (fl_div (Fin test_cvr_v) no_treat_cvr_u_bound) (Fin 1);
         uplift_u_bound_v = fl_sub (fl_div (Fin test_cvr_v) no_treat_cvr_l_bound) (Fin 1);
         test_revenue_v = test_revenue_micros / 10 ^ 6;
         control_revenue_v = control_revenue_micros / 10 ^ 6;
         scaled_control_revenue_v = control_revenue_v * ratio_v;
         mean_no_treat_revenue_micro_l_bound = fst revenue_ci;
         mean_no_treat_revenue_micro_u_bound = snd revenue_ci;
         scaled_no_treat_revenue_l_bound =
           fl_div (fl_mul (fl_mul mean_no_treat_revenue_micro_l_bound
                     (Fin (real control_group_size_v))) (Fin ratio_v)) (Fin (10 ^ 6));
         scaled_no_treat_revenue_u_bound =
           fl_div (fl_mul (fl_mul mean_no_treat_revenue_micro_u_bound
                     (Fin (real control_group_size_v))) (Fin ratio_v)) (Fin (10 ^ 6));
         incremental_revenue_estimate_v = test_revenue_v - scaled_control_revenue_v;
         incremental_revenue_l_bound_v = fl_sub (Fin test_revenue_v) scaled_no_treat_revenue_u_bound;
         incremental_revenue_u_bound_v = fl_sub (Fin test_revenue_v) scaled_no_treat_revenue_l_bound;
         iroas_estimate_v = fl_div (Fin incremental_revenue_estimate_v) (Fin ad_spend_v);
         iroas_l_bound_v = fl_div incremental_revenue_l_bound_v (Fin ad_spend_v);
         iroas_u_bound_v = fl_div incremental_revenue_u_bound_v (Fin ad_spend_v);
         rev_per_conversion_test_v =
           (if test_conversions_v > 0 then test_revenue_v / of_int test_conversions_v else 0);
         rev_per_conversion_control_v =
           (if control_conversions_v > 0 then control_revenue_v / of_int control_conversions_v else 0)
     in \<lparr>ad_spend = ad_spend_v,
         total_revenue = test_revenue_v + control_revenue_v,
         control_group_size = control_group_size_v,
         test_group_size = test_group_size_v,
         ratio = ratio_v,
         control_converters = control_converters_v,
         scaled_control_converters = scaled_control_converters_v,
         test_converters = test_converters_v,
         incremental_converters_estimate = incremental_converters_estimate_v,
         incremental_converters_l_bound = incremental_converters_l_bound_v,
         incremental_converters_u_bound = incremental_converters_u_bound_v,
         cost_per_incremental_converter_estimate = cost_estimate_c,
         cost_per_incremental_converter_l_bound = cost_l_bound_c,
         cost_per_incremental_converter_u_bound = cost_u_bound_c,
         control_conversions = control_conversions_v,
         scaled_control_conversions = scaled_control_conversions_v,
         test_conversions = test_conversions_v,
         incremental_conversions_estimate = incremental_conversions_estimate_v,
         incremental_conversions_l_bound = incremental_conversions_l_bound_v,
         incremental_conversions_u_bound = incremental_conversions_u_bound_v,
         icpa_estimate = icpa_estimate_c,
         icpa_l_bound = icpa_l_bound_c,
         icpa_u_bound = icpa_u_bound_c,
         control_cvr = control_cvr_v,
         test_cvr = test_cvr_v,
         uplift_estimate = uplift_estimate_v,
         uplift_l_bound = uplift_l_bound_v,
         uplift_u_bound = uplift_u_bound_v,
         control_revenue = control_revenue_v,
         scaled_control_revenue = scaled_control_revenue_v,
         test_revenue = test_revenue_v,
         incremental_revenue_estimate = incremental_revenue_estimate_v,
         incremental_revenue_l_bound = incremental_revenue_l_bound_v,
         incremental_revenue_u_bound = incremental_revenue_u_bound_v,
         iroas_estimate = iroas_estimate_v,
         iroas_l_bound = iroas_l_bound_v,
         iroas_u_bound = iroas_u_bound_v,
         rev_per_conversion_control = rev_per_conversion_control_v,
         rev_per_conversion_test = rev_per_conversion_test_v\<rparr>)"

text \<open>
  \<open>_uplift\<close> (\<open>plot_bootstrap_distribution=False\<close>): what can raise or return early,
  in the order of the source, around the arithmetic above. The result is the exception
  raised, or \<open>None\<close>, or the one-column frame as its label and its values; with it the
  generator's position. Building \<open>dataframe_dict\<close> evaluates the label with
  \<open>CONFIDENCE_LEVEL\<close> (tenth entry) before it reads \<open>uplift_l_bound\<close>, which is bound
  only under \<open>control_cvr > 0\<close>.
\<close>

definition Helpers_uplift ::
  "helpers \<Rightarrow> env \<Rightarrow> event list \<Rightarrow> attribution list \<Rightarrow> string \<Rightarrow> nat
     \<Rightarrow> error + ((string \<times> kpis) option \<times> nat)" where
  "Helpers_uplift self e marks_and_spend_df attributions_df index_name g =
    (case Helpers_marked (Events marks_and_spend_df) of
       Inl err \<Rightarrow> Inl err
     | Inr marks_df \<Rightarrow>
    (let ad_spend_v = Helpers_calculate_ad_spend marks_and_spend_df;
         merged_users_df = Helpers_merge_into_users_df (mark_rows marks_df) attributions_df
     in
     case get_group merged_users_df TEST of
       Inl err \<Rightarrow> Inl err
     | Inr test_users_df \<Rightarrow>
     if length test_users_df = 0 then Inr (None, g)
     else
     case get_group merged_users_df CONTROL of
       Inl err \<Rightarrow> Inl err
     | Inr control_users_df \<Rightarrow>
     if length control_users_df = 0 then Inr (None, g)
     else
     let control_group_conversions_sample =
           map (\<lambda>r. of_int (conversion_count r)) control_users_df;
         control_group_revenue_sample = map revenue_eur control_users_df
     in
     case Helpers_bootstrap_mean_ci self (draws e) g control_group_conversions_sample of
       Inl err \<Rightarrow> Inl err
     | Inr (conversions_ci, g1) \<Rightarrow>
     case Helpers_bootstrap_mean_ci self (draws e) g1 control_group_revenue_sample of
       Inl err \<Rightarrow> Inl err
     | Inr (revenue_ci, g2) \<Rightarrow>
     let dataframe_dict =
           uplift_kpis self e ad_spend_v test_users_df control_users_df conversions_ci revenue_ci
     in
     if CONFIDENCE_LEVEL e = None then Inl NameError
     else if control_cvr dataframe_dict > 0 then Inr (Some (index_name, dataframe_dict), g2)
     else Inl UnboundLocalError))"

subsection \<open>The report\<close>

text \<open>
  The report frame: its columns in order, each a label and the values of \<open>_uplift\<close>
  for that slice; assigning \<open>None\<close> to a column fills it with \<open>None\<close>.
\<close>

type_synonym report_df = "(string \<times> kpis option) list"

text \<open>\<open>report_df[name] = col\<close>: a column of that name is replaced where it stands.\<close>

definition set_column :: "string \<Rightarrow> kpis option \<Rightarrow> report_df \<Rightarrow> report_df" where
  "set_column name col df =
     (if name \<in> set (map fst df)
      then map (\<lambda>(n, c). if n = name then (n, col) else (n, c)) df
      else df @ [(name, col)])"

text \<open>The loop over \<open>self.groups.items()\<close>.\<close>

fun uplift_groups ::
  "helpers \<Rightarrow> env \<Rightarrow> event list \<Rightarrow> attribution list \<Rightarrow> (string \<times> int list) list
     \<Rightarrow> report_df \<Rightarrow> nat \<Rightarrow> error + (report_df \<times> nat)" where
  "uplift_groups self e marks_and_spend_df attributions_df [] report g = Inr (report, g)"
| "uplift_groups self e marks_and_spend_df attributions_df ((name, campaigns) # rest) report g =
     (let group_df = filter (\<lambda>r. campaign_id r \<in> set campaigns) marks_and_spend_df
      in case Helpers_uplift self e group_df attributions_df name g of
           Inl err \<Rightarrow> Inl err
         | Inr (col, g') \<Rightarrow>
             uplift_groups self e marks_and_spend_df attributions_df rest
               (set_column name (map_option snd col) report) g')"

text \<open>The loop over the campaigns.\<close>

fun uplift_campaigns ::
  "helpers \<Rightarrow> env \<Rightarrow> event list \<Rightarrow> attribution list \<Rightarrow> int list
     \<Rightarrow> report_df \<Rightarrow> nat \<Rightarrow> error + (report_df \<times> nat)" where
  "uplift_campaigns self e marks_and_spend_df attributions_df [] report g = Inr (report, g)"
| "uplift_campaigns self e marks_and_spend_df attributions_df (campaign # rest) report g =
     (let name = ''c_'' @ py_str campaign;
          campaign_df = filter (\<lambda>r. campaign_id r = campaign) marks_and_spend_df
      in case Helpers_uplift self e campaign_df attributions_df name g of
           Inl err \<Rightarrow> Inl err
         | Inr (col, g') \<Rightarrow>
             uplift_campaigns self e marks_and_spend_df attributions_df rest
               (set_column name (map_option snd col) report) g')"

text \<open>\<open>uplift_report\<close>: \<open>None\<close> when the total has no report.\<close>

definition Helpers_uplift_report ::
  "helpers \<Rightarrow> env \<Rightarrow> event list \<Rightarrow> attribution list \<Rightarrow> nat
     \<Rightarrow> error + (report_df option \<times> nat)" where
  "Helpers_uplift_report self e marks_and_spend_df attributions_df g =
     (case Helpers_uplift self e marks_and_spend_df attributions_df ''total'' g of
        Inl err \<Rightarrow> Inl err
      | Inr (None, g1) \<Rightarrow> Inr (None, g1)
      | Inr (Some (name, col), g1) \<Rightarrow>
          (case (if groups self \<noteq> []
                 then uplift_groups self e marks_and_spend_df attributions_df (groups self)
                        [(name, Some col)] g1
                 else Inr ([(name, Some col)], g1)) of
             Inl err \<Rightarrow> Inl err
           | Inr (report1, g2) \<Rightarrow>
               (case (if per_campaign_results self
                      then uplift_campaigns self e marks_and_spend_df attributions_df
                             (drop_duplicates (\<lambda>c. c) (map campaign_id marks_and_spend_df))
                             report1 g2
                      else Inr (report1, g2)) of
                  Inl err \<Rightarrow> Inl err
                | Inr (report2, g3) \<Rightarrow> Inr (Some report2, g3))))"

subsection \<open>Auxiliary definitions for the proofs\<close>

text \<open>
  The three column assignments of \<open>_merge_into_users_df\<close> (\<open>conversion_count\<close> twice,
  then \<open>revenue_eur\<close>) on one row of the join, and the rows one mark contributes.
\<close>

definition assign_columns :: "merged \<Rightarrow> merged" where
  "assign_columns r =
     r\<lparr>mg_conversion_count :=
         (if ts_before (ts_x r) (ts_y r) then 1 else 0) * (if ts_y r = None then 0 else 1),
       mg_revenue_eur := bool_times (ts_before (ts_x r) (ts_y r)) (mg_revenue_eur r)\<rparr>"

definition user_rows :: "mark \<Rightarrow> attribution list \<Rightarrow> merged list" where
  "user_rows m attributions_df = map assign_columns (left_join_row m attributions_df)"

text \<open>Mark rows with the column \<open>event_type\<close> put back, every row a mark event.\<close>

definition with_event_type :: "mark list \<Rightarrow> event list" where
  "with_event_type df =
     map (\<lambda>m. \<lparr>ts = ts m, user_id = user_id m, ab_test_group = ab_test_group m,
                campaign_id = campaign_id m, cost_eur = cost_eur m, event_type = ''mark''\<rparr>) df"

text \<open>The users frame of a slice, as \<open>_uplift\<close> builds it from its two arguments.\<close>

definition slice_users :: "event list \<Rightarrow> attribution list \<Rightarrow> user_row list" where
  "slice_users marks_and_spend_df attributions_df =
     (case Helpers_marked (Events marks_and_spend_df) of
        Inl err \<Rightarrow> []
      | Inr marks_df \<Rightarrow> Helpers_merge_into_users_df (mark_rows marks_df) attributions_df)"

subsection \<open>Example inputs\<close>

text \<open>
  An environment for the examples: \<open>CONFIDENCE_LEVEL\<close> bound, constant draws, and for
  \<open>binom.ppf\<close> the quantile of Binomial(n, p) at \<open>p = 0\<close> or \<open>p = 1\<close>, which is \<open>n p\<close>
  (no example has another \<open>p\<close>). Then a test user and a control user marked at
  \<open>ts = 0\<close> in campaign 7, a spend row of the test group, a test user marked in
  campaign 8, one conversion of the control user, and one of the test user.
\<close>

definition example_env :: env where
  "example_env =
     \<lparr>binom_ppf = (\<lambda>q n p. Fin (of_int n * p)), draws = (\<lambda>i. 0),
      CONFIDENCE_LEVEL = Some (19 / 20)\<rparr>"

definition example_marks :: "event list" where
  "example_marks =
     [\<lparr>ts = 0, user_id = 1, ab_test_group = True, campaign_id = 7, cost_eur = None,
        event_type = ''mark''\<rparr>,
      \<lparr>ts = 0, user_id = 2, ab_test_group = False, campaign_id = 7, cost_eur = None,
        event_type = ''mark''\<rparr>]"

definition example_spend :: "event list" where
  "example_spend =
     [\<lparr>ts = 2, user_id = 1, ab_test_group = True, campaign_id = 7, cost_eur = Some 1000000,
        event_type = ''buying_conversion''\<rparr>]"

definition example_campaign_8 :: "event list" where
  "example_campaign_8 =
     [\<lparr>ts = 0, user_id = 3, ab_test_group = True, campaign_id = 8, cost_eur = None,
        event_type = ''mark''\<rparr>]"

definition example_attributions :: "attribution list" where
  "example_attributions = [\<lparr>a_ts = 1, a_user_id = 2, a_revenue_eur = Some 1000000\<rparr>]"

definition example_attributions_test :: "attribution list" where
  "example_attributions_test = [\<lparr>a_ts = 1, a_user_id = 1, a_revenue_eur = Some 1000000\<rparr>]"

section \<open>Properties\<close>

subsection \<open>Quantile indices of the bootstrap\<close>

lemma py_int_nonneg: "0 \<le> x \<Longrightarrow> py_int x = \<lfloor>x\<rfloor>"
  by (simp add: py_int_def)

lemma length_bootstrapped_means [simp]:
  "length (bootstrapped_means self d g sample) = nat (bootstrap_size self)"
  by (simp add: bootstrapped_means_def)

lemma py_index_nonneg:
  "0 \<le> i \<Longrightarrow> py_index xs i = (if i < int (length xs) then Inr (xs ! nat i) else Inl IndexError)"
  by (simp add: py_index_def)

lemma bootstrap_mean_ci_nonneg:
  assumes "0 \<le> lower_index self" and "0 \<le> upper_index self"
  shows "Helpers_bootstrap_mean_ci self d g sample =
    (let means = sort_key fl_rank (bootstrapped_means self d g sample) in
     if lower_index self < bootstrap_size self \<and> upper_index self < bootstrap_size self
     then Inr ((means ! nat (lower_index self), means ! nat (upper_index self)),
               g + nat (bootstrap_size self) * length sample)
     else Inl IndexError)"
  using assms
  by (auto simp: Helpers_bootstrap_mean_ci_def Let_def py_index_nonneg)

lemma lower_index_floor:
  assumes "confidence_level self < 1" and "0 \<le> bootstrap_size self"
  shows "lower_index self = \<lfloor>((1 - confidence_level self) / 2) * of_int (bootstrap_size self + 1)\<rfloor>"
    and "0 \<le> lower_index self"
proof -
  have "0 \<le> ((1 - confidence_level self) / 2) * of_int (bootstrap_size self + 1)"
    using assms by simp
  then show "lower_index self = \<lfloor>((1 - confidence_level self) / 2) * of_int (bootstrap_size self + 1)\<rfloor>"
    and "0 \<le> lower_index self"
    by (simp_all add: lower_index_def py_int_nonneg)
qed

lemma upper_index_floor:
  assumes "0 < confidence_level self" and "confidence_level self < 1" and "0 \<le> bootstrap_size self"
  shows "upper_index self =
           \<lfloor>((1 - confidence_level self) / 2 + confidence_level self) * of_int (bootstrap_size self + 1)\<rfloor>"
    and "lower_index self \<le> upper_index self"
proof -
  let ?a = "confidence_level self" and ?m = "of_int (bootstrap_size self + 1) :: real"
  have m: "0 \<le> ?m" using assms by simp
  have le: "((1 - ?a) / 2) * ?m \<le> ((1 - ?a) / 2 + ?a) * ?m"
    using assms m by (intro mult_right_mono) simp_all
  have nn: "0 \<le> ((1 - ?a) / 2 + ?a) * ?m"
    using assms m by (intro mult_nonneg_nonneg) simp_all
  show u: "upper_index self = \<lfloor>((1 - ?a) / 2 + ?a) * ?m\<rfloor>"
    using nn by (simp add: upper_index_def py_int_nonneg)
  show "lower_index self \<le> upper_index self"
    unfolding u lower_index_floor(1)[OF assms(2,3)] using le by (rule floor_mono)
qed

lemma upper_index_less_iff:
  assumes "0 < confidence_level self" and "confidence_level self < 1" and "0 \<le> bootstrap_size self"
  shows "upper_index self < bootstrap_size self
           \<longleftrightarrow> 1 + confidence_level self
                 < of_int (bootstrap_size self) * (1 - confidence_level self)"
proof -
  let ?a = "confidence_level self" and ?n = "of_int (bootstrap_size self) :: real"
  have "upper_index self < bootstrap_size self
          \<longleftrightarrow> ((1 - ?a) / 2 + ?a) * of_int (bootstrap_size self + 1) < ?n"
    unfolding upper_index_floor(1)[OF assms] by (simp add: floor_less_iff)
  also have "\<dots> \<longleftrightarrow> 1 + ?a < ?n * (1 - ?a)"
    by (simp add: field_simps)
  finally show ?thesis .
qed




subsection \<open>Bootstrap size and bounds\<close>

lemma length_random_choice [simp]: "length (random_choice d k sample) = length sample"
  by (simp add: random_choice_def)










subsection \<open>Deduplication and merge\<close>

lemma drop_duplicates_in_attributions_length_le:
  "length (Helpers_drop_duplicates_in_attributions df max_timedelta) \<le> length df"
proof -
  let ?s = "sort_key (\<lambda>r. (a_user_id r, na_last (a_revenue_eur r))) df"
  have "length (Helpers_drop_duplicates_in_attributions df max_timedelta)
          \<le> length (zip ?s (shift1 ?s))"
    unfolding Helpers_drop_duplicates_in_attributions_def Let_def length_map
    by (rule length_filter_le)
  also have "\<dots> \<le> length df" by simp
  finally show ?thesis .
qed

lemma drop_duplicates_in_attributions_subset:
  "set (Helpers_drop_duplicates_in_attributions df max_timedelta) \<subseteq> set df"
proof
  fix x assume "x \<in> set (Helpers_drop_duplicates_in_attributions df max_timedelta)"
  then obtain p where "(x, p) \<in> set (zip (sort_key (\<lambda>r. (a_user_id r, na_last (a_revenue_eur r))) df)
      (shift1 (sort_key (\<lambda>r. (a_user_id r, na_last (a_revenue_eur r))) df)))"
    by (auto simp: Helpers_drop_duplicates_in_attributions_def Let_def)
  then have "x \<in> set (sort_key (\<lambda>r. (a_user_id r, na_last (a_revenue_eur r))) df)"
    by (rule set_zip_leftD)
  then show "x \<in> set df" by simp
qed

text \<open>
  C3, at two inputs the loader can deliver (\<open>max_timedelta\<close> 60, timestamps in
  seconds). Two rows of one user and one revenue exactly 60 apart: the later one is
  dropped, since a row is kept only when it is more than \<open>max_timedelta\<close> after the row
  before it. Two such rows 1000 apart, the later one first in the table: the sort has
  no timestamp key, the difference is negative, and the second row is dropped.
\<close>

theorem drop_duplicates_drops_rows_a_gap_apart: "Helpers_drop_duplicates_in_attributions
     [\<lparr>a_ts = 0, a_user_id = 1, a_revenue_eur = Some 5\<rparr>,
      \<lparr>a_ts = 60, a_user_id = 1, a_revenue_eur = Some 5\<rparr>] 60
   = [\<lparr>a_ts = 0, a_user_id = 1, a_revenue_eur = Some 5\<rparr>]
  \<and> Helpers_drop_duplicates_in_attributions
     [\<lparr>a_ts = 1000, a_user_id = 1, a_revenue_eur = Some 5\<rparr>,
      \<lparr>a_ts = 0, a_user_id = 1, a_revenue_eur = Some 5\<rparr>] 60
   = [\<lparr>a_ts = 1000, a_user_id = 1, a_revenue_eur = Some 5\<rparr>]"
  by code_simp

text \<open>
  C4, at an attribution whose timestamp equals its user's mark timestamp: it is not
  counted, neither as a conversion nor as revenue (the code keeps \<open>ts_x < ts_y\<close> only).
\<close>

theorem attribution_at_mark_timestamp_not_counted: "Helpers_merge_into_users_df
     [\<lparr>ts = 5, user_id = 1, ab_test_group = True, campaign_id = 7, cost_eur = None\<rparr>]
     [\<lparr>a_ts = 5, a_user_id = 1, a_revenue_eur = Some 100\<rparr>]
   = [\<lparr>u_user_id = 1, u_ab_test_group = True, conversion_count = 0, revenue_eur = 0\<rparr>]"
  by code_simp

lemma merge_unfold:
  "Helpers_merge_into_users_df marks_df attributions_df =
     (let merged_df = concat (map (\<lambda>m. user_rows m attributions_df) marks_df)
      in map (\<lambda>k. let rows = filter (\<lambda>r. mg_user_id r = k) merged_df
                  in \<lparr>u_user_id = k,
                      u_ab_test_group = mg_ab_test_group (hd rows),
                      conversion_count = sum_list (map mg_conversion_count rows),
                      revenue_eur = nansum (map mg_revenue_eur rows)\<rparr>)
           (sort (remdups (map mg_user_id merged_df))))"
proof -
  have "map (\<lambda>r. r\<lparr>mg_revenue_eur := bool_times (ts_before (ts_x r) (ts_y r)) (mg_revenue_eur r)\<rparr>)
         (map (\<lambda>r. r\<lparr>mg_conversion_count :=
                       (if ts_before (ts_x r) (ts_y r) then 1 else 0) * mg_conversion_count r\<rparr>)
           (map (\<lambda>r. r\<lparr>mg_conversion_count := (if ts_y r = None then 0 else 1)\<rparr>)
             (concat (map (\<lambda>m. left_join_row m attributions_df) marks_df))))
        = concat (map (\<lambda>m. user_rows m attributions_df) marks_df)"
    by (simp add: map_concat user_rows_def assign_columns_def[abs_def] comp_def)
  then show ?thesis
    unfolding Helpers_merge_into_users_df_def Let_def by simp
qed


lemma user_rows_ne [simp]: "user_rows m attrs \<noteq> []"
  by (simp add: user_rows_def left_join_row_def Let_def)

lemma user_rows_key:
  "r \<in> set (user_rows m attrs) \<Longrightarrow> mg_user_id r = user_id m \<and> mg_ab_test_group r = ab_test_group m"
  by (auto simp: user_rows_def left_join_row_def Let_def assign_columns_def split: if_splits)

lemma filter_user_rows:
  "filter (\<lambda>r. mg_user_id r = k) (user_rows m attrs) = (if user_id m = k then user_rows m attrs else [])"
  using user_rows_key[of _ m attrs] by (auto simp: filter_empty_conv filter_id_conv)

lemma filter_concat_user_rows:
  "filter (\<lambda>r. mg_user_id r = k) (concat (map (\<lambda>m. user_rows m attrs) marks))
     = concat (map (\<lambda>m. user_rows m attrs) (filter (\<lambda>m. user_id m = k) marks))"
  by (induction marks) (simp_all add: filter_user_rows)

lemma set_merged_keys:
  "set (map mg_user_id (concat (map (\<lambda>m. user_rows m attrs) marks))) = user_id ` set marks"
proof (induction marks)
  case Nil
  then show ?case by simp
next
  case (Cons m marks)
  have "mg_user_id ` set (user_rows m attrs) = {user_id m}"
  proof -
    obtain r where "r \<in> set (user_rows m attrs)"
      using user_rows_ne[of m attrs] by (cases "user_rows m attrs") auto
    then show ?thesis using user_rows_key[of _ m attrs] by auto
  qed
  with Cons show ?case by simp
qed

lemma sum_list_indicator:
  "(\<Sum>x\<leftarrow>xs. if P x then (1::int) else 0) = int (length (filter P xs))"
  by (induction xs) simp_all

lemma sum_list_concat_lists:
  fixes xss :: "int list list"
  shows "sum_list (concat xss) = sum_list (map sum_list xss)"
  by (induction xss) simp_all

lemma sum_list_all_zero:
  fixes f :: "'a \<Rightarrow> 'b::monoid_add"
  shows "(\<And>x. x \<in> set xs \<Longrightarrow> f x = 0) \<Longrightarrow> sum_list (map f xs) = 0"
  by (induction xs) simp_all

lemma nansum_Nil [simp]: "nansum [] = 0"
  by (simp add: nansum_def)

lemma nansum_Cons [simp]: "nansum (x # xs) = (case x of None \<Rightarrow> 0 | Some v \<Rightarrow> v) + nansum xs"
  by (simp add: nansum_def)

lemma nansum_append [simp]: "nansum (xs @ ys) = nansum xs + nansum ys"
  by (simp add: nansum_def)

lemma nansum_concat: "nansum (concat xss) = sum_list (map nansum xss)"
  by (induction xss) simp_all

lemma conversion_count_user_rows:
  "sum_list (map mg_conversion_count (user_rows m attrs))
     = int (length (filter (\<lambda>a. a_user_id a = user_id m \<and> ts m < a_ts a) attrs))"
proof (cases "filter (\<lambda>a. a_user_id a = user_id m) attrs = []")
  case True
  then have "filter (\<lambda>a. a_user_id a = user_id m \<and> ts m < a_ts a) attrs = []"
    by (auto simp: filter_empty_conv)
  with True show ?thesis
    by (simp add: user_rows_def left_join_row_def assign_columns_def)
next
  case False
  have "sum_list (map mg_conversion_count (user_rows m attrs))
      = (\<Sum>a\<leftarrow>filter (\<lambda>a. a_user_id a = user_id m) attrs. if ts m < a_ts a then 1 else 0)"
    using False
    by (simp add: user_rows_def left_join_row_def assign_columns_def comp_def cong: if_cong)
  also have "\<dots> = int (length (filter (\<lambda>a. ts m < a_ts a) (filter (\<lambda>a. a_user_id a = user_id m) attrs)))"
    by (rule sum_list_indicator)
  also have "\<dots> = int (length (filter (\<lambda>a. a_user_id a = user_id m \<and> ts m < a_ts a) attrs))"
    by (simp add: conj_commute)
  finally show ?thesis .
qed

lemma nansum_bool_times:
  "nansum (map (\<lambda>a. bool_times (P a) (f a)) xs) = nansum (map f (filter P xs))"
proof (induction xs)
  case Nil
  then show ?case by simp
next
  case (Cons a xs)
  then show ?case by (cases "f a") simp_all
qed

lemma revenue_user_rows:
  "nansum (map mg_revenue_eur (user_rows m attrs))
     = nansum (map a_revenue_eur (filter (\<lambda>a. a_user_id a = user_id m \<and> ts m < a_ts a) attrs))"
proof (cases "filter (\<lambda>a. a_user_id a = user_id m) attrs = []")
  case True
  then have "filter (\<lambda>a. a_user_id a = user_id m \<and> ts m < a_ts a) attrs = []"
    by (auto simp: filter_empty_conv)
  with True show ?thesis
    by (simp add: user_rows_def left_join_row_def assign_columns_def)
next
  case False
  have "nansum (map mg_revenue_eur (user_rows m attrs))
      = nansum (map (\<lambda>a. bool_times (ts m < a_ts a) (a_revenue_eur a))
                 (filter (\<lambda>a. a_user_id a = user_id m) attrs))"
    using False
    by (simp add: user_rows_def left_join_row_def assign_columns_def comp_def)
  also have "\<dots> = nansum (map a_revenue_eur
        (filter (\<lambda>a. ts m < a_ts a) (filter (\<lambda>a. a_user_id a = user_id m) attrs)))"
    by (rule nansum_bool_times)
  also have "\<dots> = nansum (map a_revenue_eur
        (filter (\<lambda>a. a_user_id a = user_id m \<and> ts m < a_ts a) attrs))"
    by (simp add: conj_commute)
  finally show ?thesis .
qed

lemma hd_concat_user_rows:
  assumes "ms \<noteq> []"
  shows "mg_ab_test_group (hd (concat (map (\<lambda>m. user_rows m attrs) ms))) = ab_test_group (hd ms)"
proof -
  obtain m rest where ms: "ms = m # rest" using assms by (cases ms) auto
  have "hd (concat (map (\<lambda>m. user_rows m attrs) ms)) = hd (user_rows m attrs)"
    by (simp add: ms)
  moreover have "hd (user_rows m attrs) \<in> set (user_rows m attrs)" by simp
  ultimately show ?thesis using user_rows_key[of _ m attrs] by (simp add: ms)
qed

lemma merge_rows:
  "Helpers_merge_into_users_df marks attrs =
     map (\<lambda>k. \<lparr>u_user_id = k,
               u_ab_test_group = ab_test_group (hd (filter (\<lambda>m. user_id m = k) marks)),
               conversion_count =
                 (\<Sum>m\<leftarrow>filter (\<lambda>m. user_id m = k) marks.
                    int (length (filter (\<lambda>a. a_user_id a = user_id m \<and> ts m < a_ts a) attrs))),
               revenue_eur =
                 (\<Sum>m\<leftarrow>filter (\<lambda>m. user_id m = k) marks.
                    nansum (map a_revenue_eur
                      (filter (\<lambda>a. a_user_id a = user_id m \<and> ts m < a_ts a) attrs)))\<rparr>)
       (sort (remdups (map user_id marks)))"
proof -
  let ?merged = "concat (map (\<lambda>m. user_rows m attrs) marks)"
  have keys: "sort (remdups (map mg_user_id ?merged)) = sort (remdups (map user_id marks))"
  proof (rule sorted_distinct_set_unique)
    show "set (sort (remdups (map mg_user_id ?merged))) = set (sort (remdups (map user_id marks)))"
      using set_merged_keys[of attrs marks] by simp
  qed simp_all
  have row: "\<lparr>u_user_id = k,
        u_ab_test_group = mg_ab_test_group (hd (filter (\<lambda>r. mg_user_id r = k) ?merged)),
        conversion_count = sum_list (map mg_conversion_count (filter (\<lambda>r. mg_user_id r = k) ?merged)),
        revenue_eur = nansum (map mg_revenue_eur (filter (\<lambda>r. mg_user_id r = k) ?merged))\<rparr>
      = \<lparr>u_user_id = k,
         u_ab_test_group = ab_test_group (hd (filter (\<lambda>m. user_id m = k) marks)),
         conversion_count =
           (\<Sum>m\<leftarrow>filter (\<lambda>m. user_id m = k) marks.
              int (length (filter (\<lambda>a. a_user_id a = user_id m \<and> ts m < a_ts a) attrs))),
         revenue_eur =
           (\<Sum>m\<leftarrow>filter (\<lambda>m. user_id m = k) marks.
              nansum (map a_revenue_eur
                (filter (\<lambda>a. a_user_id a = user_id m \<and> ts m < a_ts a) attrs)))\<rparr>"
    if "k \<in> set (sort (remdups (map user_id marks)))" for k
  proof -
    from that have ne: "filter (\<lambda>m. user_id m = k) marks \<noteq> []"
      by (auto simp: filter_empty_conv)
    show ?thesis
      by (simp add: filter_concat_user_rows hd_concat_user_rows[OF ne] map_concat
          sum_list_concat_lists nansum_concat comp_def conversion_count_user_rows revenue_user_rows)
  qed
  show ?thesis
    unfolding merge_unfold Let_def keys using row by (intro map_cong refl)
qed


text \<open>
  C8. The users frame has exactly one row per distinct \<open>user_id\<close> of the marks table,
  in ascending order of \<open>user_id\<close>; the group of a row is the group of that user's
  (first) mark record; a user without any attribution row has \<open>conversion_count = 0\<close>
  and \<open>revenue_eur = 0\<close>.
\<close>

theorem merge_one_row_per_marked_user:
  "map u_user_id (Helpers_merge_into_users_df marks attrs) = sort (remdups (map user_id marks))
   \<and> distinct (map u_user_id (Helpers_merge_into_users_df marks attrs))
   \<and> set (map u_user_id (Helpers_merge_into_users_df marks attrs)) = user_id ` set marks
   \<and> (\<forall>r \<in> set (Helpers_merge_into_users_df marks attrs).
         u_ab_test_group r = ab_test_group (hd (filter (\<lambda>m. user_id m = u_user_id r) marks))
         \<and> hd (filter (\<lambda>m. user_id m = u_user_id r) marks) \<in> set marks)
   \<and> (\<forall>r \<in> set (Helpers_merge_into_users_df marks attrs).
         u_user_id r \<notin> a_user_id ` set attrs \<longrightarrow> conversion_count r = 0 \<and> revenue_eur r = 0)"
proof -
  let ?us = "Helpers_merge_into_users_df marks attrs"
  have ids: "map u_user_id ?us = sort (remdups (map user_id marks))"
    unfolding merge_rows by (simp add: comp_def)
  have row: "u_user_id r \<in> user_id ` set marks
      \<and> u_ab_test_group r = ab_test_group (hd (filter (\<lambda>m. user_id m = u_user_id r) marks))
      \<and> conversion_count r =
          (\<Sum>m\<leftarrow>filter (\<lambda>m. user_id m = u_user_id r) marks.
             int (length (filter (\<lambda>a. a_user_id a = user_id m \<and> ts m < a_ts a) attrs)))
      \<and> revenue_eur r =
          (\<Sum>m\<leftarrow>filter (\<lambda>m. user_id m = u_user_id r) marks.
             nansum (map a_revenue_eur
               (filter (\<lambda>a. a_user_id a = user_id m \<and> ts m < a_ts a) attrs)))"
    if "r \<in> set ?us" for r
    using that unfolding merge_rows by auto
  have grp: "u_ab_test_group r = ab_test_group (hd (filter (\<lambda>m. user_id m = u_user_id r) marks))
      \<and> hd (filter (\<lambda>m. user_id m = u_user_id r) marks) \<in> set marks"
    if r: "r \<in> set ?us" for r
  proof -
    from row[OF r] have "filter (\<lambda>m. user_id m = u_user_id r) marks \<noteq> []"
      by (auto simp: filter_empty_conv)
    then have "hd (filter (\<lambda>m. user_id m = u_user_id r) marks)
                 \<in> set (filter (\<lambda>m. user_id m = u_user_id r) marks)"
      by (rule hd_in_set)
    with row[OF r] show ?thesis by simp
  qed
  have absent: "conversion_count r = 0 \<and> revenue_eur r = 0"
    if r: "r \<in> set ?us" and no: "u_user_id r \<notin> a_user_id ` set attrs" for r
  proof -
    from no have na: "\<forall>a \<in> set attrs. a_user_id a \<noteq> u_user_id r" by (metis imageI)
    have e: "filter (\<lambda>a. a_user_id a = user_id m \<and> ts m < a_ts a) attrs = []"
      if "m \<in> set (filter (\<lambda>m. user_id m = u_user_id r) marks)" for m :: mark
      using na that by (simp add: filter_empty_conv)
    have
      "(\<Sum>m\<leftarrow>filter (\<lambda>m. user_id m = u_user_id r) marks.
          int (length (filter (\<lambda>a. a_user_id a = user_id m \<and> ts m < a_ts a) attrs))) = 0"
      "(\<Sum>m\<leftarrow>filter (\<lambda>m. user_id m = u_user_id r) marks.
          nansum (map a_revenue_eur
            (filter (\<lambda>a. a_user_id a = user_id m \<and> ts m < a_ts a) attrs))) = 0"
      using na by (auto intro!: sum_list_all_zero simp: filter_empty_conv)
    with row[OF r] show ?thesis by simp
  qed
  have "distinct (map u_user_id ?us)" unfolding ids by simp
  moreover have "set (map u_user_id ?us) = user_id ` set marks" unfolding ids by simp
  ultimately show ?thesis using ids grp absent by blast
qed

text \<open>Two marked users, one of them with an attribution.\<close>

theorem merge_one_row_per_marked_user_witness:
  "map u_user_id (Helpers_merge_into_users_df
       [\<lparr>ts = 0, user_id = 2, ab_test_group = False, campaign_id = 7, cost_eur = None\<rparr>,
        \<lparr>ts = 0, user_id = 1, ab_test_group = True, campaign_id = 7, cost_eur = None\<rparr>]
       [\<lparr>a_ts = 1, a_user_id = 2, a_revenue_eur = Some 1000000\<rparr>]) = [1, 2]
   \<and> Helpers_merge_into_users_df
       [\<lparr>ts = 0, user_id = 2, ab_test_group = False, campaign_id = 7, cost_eur = None\<rparr>,
        \<lparr>ts = 0, user_id = 1, ab_test_group = True, campaign_id = 7, cost_eur = None\<rparr>]
       [\<lparr>a_ts = 1, a_user_id = 2, a_revenue_eur = Some 1000000\<rparr>] ! 0
      = \<lparr>u_user_id = 1, u_ab_test_group = True, conversion_count = 0, revenue_eur = 0\<rparr>"
proof -
  let ?ms = "[\<lparr>ts = 0, user_id = 2, ab_test_group = False, campaign_id = 7, cost_eur = None\<rparr>,
        \<lparr>ts = 0, user_id = 1, ab_test_group = True, campaign_id = 7, cost_eur = None\<rparr>]"
  let ?as = "[\<lparr>a_ts = 1, a_user_id = 2, a_revenue_eur = Some 1000000\<rparr>]"
  let ?us = "Helpers_merge_into_users_df ?ms ?as"
  note t = merge_one_row_per_marked_user[of ?ms ?as]
  have ids: "map u_user_id ?us = [1, 2]" using t by simp
  then have len: "length ?us = 2" by (metis length_map length_Cons list.size(3) numeral_2_eq_2)
  then have mem: "?us ! 0 \<in> set ?us" by simp
  have id0: "u_user_id (?us ! 0) = 1"
    using ids len by (metis nth_map nth_Cons_0 zero_less_numeral)
  have "u_ab_test_group (?us ! 0) = True \<and> conversion_count (?us ! 0) = 0 \<and> revenue_eur (?us ! 0) = 0"
    using t mem id0 by auto
  with id0 have "?us ! 0 = \<lparr>u_user_id = 1, u_ab_test_group = True, conversion_count = 0, revenue_eur = 0\<rparr>"
    by (cases "?us ! 0") simp
  with ids show ?thesis by simp
qed

subsection \<open>Mark extraction\<close>

lemma set_drop_duplicates: "set (drop_duplicates f xs) \<subseteq> set xs"
  by (induction f xs rule: drop_duplicates.induct) auto

lemma keys_drop_duplicates: "f ` set (drop_duplicates f xs) = f ` set xs"
proof (induction f xs rule: drop_duplicates.induct)
  case (1 f)
  then show ?case by simp
next
  case (2 f x xs)
  have "f ` set (x # xs) = insert (f x) (f ` set (filter (\<lambda>y. f y \<noteq> f x) xs))"
    by auto
  with 2 show ?case by simp
qed

lemma distinct_drop_duplicates: "distinct (map f (drop_duplicates f xs))"
proof (induction f xs rule: drop_duplicates.induct)
  case (1 f)
  then show ?case by simp
next
  case (2 f x xs)
  have "f x \<notin> f ` set (drop_duplicates f (filter (\<lambda>y. f y \<noteq> f x) xs))"
    using set_drop_duplicates[of f "filter (\<lambda>y. f y \<noteq> f x) xs"] by auto
  with 2 show ?case by simp
qed

lemma drop_duplicates_distinct_id: "distinct (map f xs) \<Longrightarrow> drop_duplicates f xs = xs"
proof (induction xs)
  case Nil
  then show ?case by simp
next
  case (Cons x xs)
  then have "\<forall>y \<in> set xs. f y \<noteq> f x" by (metis distinct.simps(2) image_eqI list.simps(9) set_map)
  then have "filter (\<lambda>y. f y \<noteq> f x) xs = xs"
    by (simp add: filter_id_conv)
  with Cons show ?case by simp
qed

lemma sorted_drop_duplicates:
  "sorted (map g xs) \<Longrightarrow> sorted (map g (drop_duplicates f xs))"
proof (induction f xs rule: drop_duplicates.induct)
  case (1 f)
  then show ?case by simp
next
  case (2 f x xs)
  from "2.prems" have s: "sorted (map g xs)" and le: "\<forall>y \<in> set xs. g x \<le> g y" by auto
  from s have "sorted (map g (filter (\<lambda>y. f y \<noteq> f x) xs))" by (rule sorted_filter)
  then have "sorted (map g (drop_duplicates f (filter (\<lambda>y. f y \<noteq> f x) xs)))" by (rule "2.IH")
  moreover have "\<forall>y \<in> set (drop_duplicates f (filter (\<lambda>y. f y \<noteq> f x) xs)). g x \<le> g y"
    using le set_drop_duplicates[of f "filter (\<lambda>y. f y \<noteq> f x) xs"] by auto
  ultimately show ?case by simp
qed

lemma drop_duplicates_earliest:
  "sorted (map g xs) \<Longrightarrow> x \<in> set (drop_duplicates f xs) \<Longrightarrow> y \<in> set xs \<Longrightarrow> f y = f x
     \<Longrightarrow> g x \<le> g y"
proof (induction f xs rule: drop_duplicates.induct)
  case (1 f)
  then show ?case by simp
next
  case (2 f z zs)
  from "2.prems"(1) have s: "sorted (map g zs)" and le: "\<forall>y \<in> set zs. g z \<le> g y" by auto
  show ?case
  proof (cases "x = z")
    case True
    with "2.prems"(3) le show ?thesis by auto
  next
    case False
    with "2.prems"(2) have x: "x \<in> set (drop_duplicates f (filter (\<lambda>y. f y \<noteq> f z) zs))" by simp
    then have "x \<in> set (filter (\<lambda>y. f y \<noteq> f z) zs)"
      using set_drop_duplicates[of f "filter (\<lambda>y. f y \<noteq> f z) zs"] by auto
    then have "f x \<noteq> f z" by simp
    with "2.prems"(3,4) have y: "y \<in> set (filter (\<lambda>y. f y \<noteq> f z) zs)" by auto
    from s have "sorted (map g (filter (\<lambda>y. f y \<noteq> f z) zs))" by (rule sorted_filter)
    from "2.IH"[OF this x y "2.prems"(4)] show ?thesis .
  qed
qed

lemma truncate_with_event_type [simp]: "map mark.truncate (with_event_type df) = df"
  by (induction df) (simp_all add: with_event_type_def mark.truncate_def)

lemma filter_with_event_type [simp]:
  "filter (\<lambda>r. event_type r = ''mark'') (with_event_type df) = with_event_type df"
  by (simp add: with_event_type_def filter_id_conv)

lemma with_event_type_Nil [simp]: "with_event_type df = [] \<longleftrightarrow> df = []"
  by (simp add: with_event_type_def)

lemma marked_with_event_type:
  "Helpers_marked (Events (with_event_type df)) =
     Inr (if df = [] then Events [] else Marks (drop_duplicates user_id (sort_key ts df)))"
  by (simp add: Let_def)

text \<open>
  C5, as the code has it. \<open>_marked\<close> drops the column \<open>event_type\<close>, so it cannot read
  its own non-empty output: it raises \<open>AttributeError\<close> there (an empty output is
  returned as it is). With the column put back, every row a mark event, it returns the
  same set of records again. The records have distinct \<open>user_id\<close>s, one for every user with a
  mark event, each with the earliest timestamp of that user's mark events.
\<close>

theorem marked_idempotent_with_event_type:
  assumes "Helpers_marked (Events df) = Inr out"
  shows "(\<exists>out'. Helpers_marked (Events (with_event_type (mark_rows out))) = Inr out'
              \<and> set (mark_rows out') = set (mark_rows out)
              \<and> distinct (map user_id (mark_rows out')))
       \<and> Helpers_marked out = (if mark_rows out = [] then Inr out else Inl AttributeError)
       \<and> distinct (map user_id (mark_rows out))
       \<and> user_id ` set (mark_rows out) = user_id ` {r \<in> set df. event_type r = ''mark''}
       \<and> (\<forall>r \<in> set (mark_rows out). \<forall>r' \<in> set df.
            event_type r' = ''mark'' \<and> user_id r' = user_id r \<longrightarrow> ts r \<le> ts r')"
proof (cases "df = []")
  case True
  with assms have "out = Events []" by simp
  then show ?thesis using True by (simp add: marked_with_event_type)
next
  case False
  let ?marks = "map mark.truncate (filter (\<lambda>r. event_type r = ''mark'') df)"
  let ?d = "drop_duplicates user_id (sort_key ts ?marks)"
  from assms False have out: "out = Marks ?d" by (simp add: Let_def)
  have srt: "sorted (map ts ?d)" by (intro sorted_drop_duplicates sorted_sort_key)
  have dist: "distinct (map user_id ?d)" by (rule distinct_drop_duplicates)
  have again: "drop_duplicates user_id (sort_key ts ?d) = ?d"
    using srt dist by (simp add: sort_key_id_if_sorted drop_duplicates_distinct_id)
  have keys: "user_id ` set ?d = user_id ` {r \<in> set df. event_type r = ''mark''}"
    by (simp add: keys_drop_duplicates image_image mark.truncate_def) 
  have early: "ts r \<le> ts r'"
    if r: "r \<in> set ?d" and r': "r' \<in> set df" "event_type r' = ''mark''" "user_id r' = user_id r"
    for r r'
  proof -
    have "mark.truncate r' \<in> set (sort_key ts ?marks)" using r' by simp
    moreover have "user_id (mark.truncate r') = user_id r" "ts (mark.truncate r') = ts r'"
      using r'(3) by (simp_all add: mark.truncate_def)
    ultimately show ?thesis
      using drop_duplicates_earliest[of ts "sort_key ts ?marks" r user_id "mark.truncate r'"] r
      by (simp add: sorted_sort_key)
  qed
  show ?thesis
    unfolding out using again dist keys early
    by (auto simp: marked_with_event_type)
qed

text \<open>Two marks of user 1, the earlier one in the control group, and a spend row.\<close>

theorem marked_idempotent_with_event_type_witness:
  "(\<exists>out'. Helpers_marked (Events (with_event_type
        [\<lparr>ts = 3, user_id = 1, ab_test_group = False, campaign_id = 7, cost_eur = None\<rparr>]))
          = Inr out'
      \<and> set (mark_rows out')
          = {\<lparr>ts = 3, user_id = 1, ab_test_group = False, campaign_id = 7, cost_eur = None\<rparr>})
   \<and> Helpers_marked (Marks
        [\<lparr>ts = 3, user_id = 1, ab_test_group = False, campaign_id = 7, cost_eur = None\<rparr>])
       = Inl AttributeError"
proof -
  have ev: "Helpers_marked (Events
      [\<lparr>ts = 5, user_id = 1, ab_test_group = True, campaign_id = 7, cost_eur = None,
         event_type = ''mark''\<rparr>,
       \<lparr>ts = 3, user_id = 1, ab_test_group = False, campaign_id = 7, cost_eur = None,
         event_type = ''mark''\<rparr>,
       \<lparr>ts = 4, user_id = 1, ab_test_group = True, campaign_id = 7, cost_eur = Some 500,
         event_type = ''buying_conversion''\<rparr>])
     = Inr (Marks [\<lparr>ts = 3, user_id = 1, ab_test_group = False, campaign_id = 7, cost_eur = None\<rparr>])"
    by code_simp
  show ?thesis
    using marked_idempotent_with_event_type[OF ev] by simp
qed

text \<open>One mark event: the output of \<open>_marked\<close> is not an input it accepts.\<close>

theorem marked_on_own_output_raises:
  "Helpers_marked (Events
      [\<lparr>ts = 0, user_id = 1, ab_test_group = True, campaign_id = 7, cost_eur = None,
         event_type = ''mark''\<rparr>])
     = Inr (Marks [\<lparr>ts = 0, user_id = 1, ab_test_group = True, campaign_id = 7, cost_eur = None\<rparr>])
   \<and> Helpers_marked (Marks
      [\<lparr>ts = 0, user_id = 1, ab_test_group = True, campaign_id = 7, cost_eur = None\<rparr>])
     = Inl AttributeError"
  by code_simp

subsection \<open>The control flow of the slice computation\<close>

lemma marked_Events_Inr: "\<exists>m. Helpers_marked (Events df) = Inr m"
  by (simp add: Let_def)

lemma get_group_KeyError:
  "get_group df name = Inl KeyError \<longleftrightarrow> filter (\<lambda>r. u_ab_test_group r = name) df = []"
  by (simp add: get_group_def Let_def)

lemma get_group_Inl: "get_group df name = Inl err \<Longrightarrow> err = KeyError"
  by (simp add: get_group_def Let_def split: if_splits)

lemma get_group_Inr:
  "get_group df name = Inr rows \<longleftrightarrow> rows = filter (\<lambda>r. u_ab_test_group r = name) df \<and> rows \<noteq> []"
  by (auto simp: get_group_def Let_def)

lemma uplift_unfold:
  "Helpers_uplift self e df attrs name g =
    (case get_group (slice_users df attrs) TEST of
       Inl err \<Rightarrow> Inl err
     | Inr tu \<Rightarrow>
    (case get_group (slice_users df attrs) CONTROL of
       Inl err \<Rightarrow> Inl err
     | Inr cu \<Rightarrow>
    (case Helpers_bootstrap_mean_ci self (draws e) g (map (\<lambda>r. of_int (conversion_count r)) cu) of
       Inl err \<Rightarrow> Inl err
     | Inr (b1, g1) \<Rightarrow>
    (case Helpers_bootstrap_mean_ci self (draws e) g1 (map revenue_eur cu) of
       Inl err \<Rightarrow> Inl err
     | Inr (b2, g2) \<Rightarrow>
       if CONFIDENCE_LEVEL e = None then Inl NameError
       else if control_cvr (uplift_kpis self e (Helpers_calculate_ad_spend df) tu cu b1 b2) > 0
       then Inr (Some (name, uplift_kpis self e (Helpers_calculate_ad_spend df) tu cu b1 b2), g2)
       else Inl UnboundLocalError))))"
proof -
  obtain m where m: "Helpers_marked (Events df) = Inr m"
    using marked_Events_Inr by blast
  then have su: "slice_users df attrs = Helpers_merge_into_users_df (mark_rows m) attrs"
    by (simp add: slice_users_def)
  show ?thesis
  proof (cases "get_group (Helpers_merge_into_users_df (mark_rows m) attrs) TEST")
    case (Inl err)
    then show ?thesis unfolding Helpers_uplift_def m su by (simp add: Let_def)
  next
    case tu: (Inr tu)
    then have tu_ne: "length tu \<noteq> 0" by (auto simp: get_group_Inr)
    show ?thesis
    proof (cases "get_group (Helpers_merge_into_users_df (mark_rows m) attrs) CONTROL")
      case (Inl err)
      then show ?thesis unfolding Helpers_uplift_def m su using tu tu_ne by (simp add: Let_def)
    next
      case cu: (Inr cu)
      then have cu_ne: "length cu \<noteq> 0" by (auto simp: get_group_Inr)
      show ?thesis
        unfolding Helpers_uplift_def m su using tu tu_ne cu cu_ne
        by (simp add: Let_def split: sum.splits prod.splits)
    qed
  qed
qed

lemma kpis_ad_spend [simp]: "ad_spend (uplift_kpis self e a tu cu b1 b2) = a"
  by (simp add: uplift_kpis_def Let_def)

lemma kpis_sizes [simp]:
  "test_group_size (uplift_kpis self e a tu cu b1 b2) = length tu"
  "control_group_size (uplift_kpis self e a tu cu b1 b2) = length cu"
  by (simp_all add: uplift_kpis_def Let_def)

lemma kpis_ratio [simp]:
  "ratio (uplift_kpis self e a tu cu b1 b2) = real (length tu) / real (length cu)"
  by (simp add: uplift_kpis_def Let_def)

lemma kpis_converters [simp]:
  "test_converters (uplift_kpis self e a tu cu b1 b2)
     = int (length (filter (\<lambda>r. conversion_count r > 0) tu))"
  "control_converters (uplift_kpis self e a tu cu b1 b2)
     = int (length (filter (\<lambda>r. conversion_count r > 0) cu))"
  by (simp_all add: uplift_kpis_def Let_def)

lemma kpis_incremental_converters_estimate:
  "incremental_converters_estimate (uplift_kpis self e a tu cu b1 b2)
     = of_int (test_converters (uplift_kpis self e a tu cu b1 b2))
       - of_int (control_converters (uplift_kpis self e a tu cu b1 b2))
         * ratio (uplift_kpis self e a tu cu b1 b2)"
  by (simp add: uplift_kpis_def Let_def)

lemma kpis_cost_estimate:
  "cost_per_incremental_converter_estimate (uplift_kpis self e a tu cu b1 b2)
     = (let q = fl_div (Fin a) (Fin (incremental_converters_estimate (uplift_kpis self e a tu cu b1 b2)))
        in if fl_less q (Fin 0) then Str negative_converters else Num q)"
  by (simp add: uplift_kpis_def Let_def)

lemma kpis_cvr:
  "control_cvr (uplift_kpis self e a tu cu b1 b2)
     = of_int (sum_list (map conversion_count cu)) / real (length cu)"
  "test_cvr (uplift_kpis self e a tu cu b1 b2)
     = of_int (sum_list (map conversion_count tu)) / real (length tu)"
  by (simp_all add: uplift_kpis_def Let_def)

lemma kpis_conversions [simp]:
  "control_conversions (uplift_kpis self e a tu cu b1 b2) = sum_list (map conversion_count cu)"
  "test_conversions (uplift_kpis self e a tu cu b1 b2) = sum_list (map conversion_count tu)"
  by (simp_all add: uplift_kpis_def Let_def)

lemma kpis_uplift:
  "uplift_estimate (uplift_kpis self e a tu cu b1 b2)
     = (if control_cvr (uplift_kpis self e a tu cu b1 b2) > 0
        then test_cvr (uplift_kpis self e a tu cu b1 b2)
               / control_cvr (uplift_kpis self e a tu cu b1 b2) - 1
        else 0)"
  "uplift_l_bound (uplift_kpis self e a tu cu b1 b2)
     = fl_sub (fl_div (Fin (test_cvr (uplift_kpis self e a tu cu b1 b2)))
         (fl_div (fl_mul (fl_mul (snd b1) (Fin (real (length cu))))
                    (Fin (ratio (uplift_kpis self e a tu cu b1 b2))))
            (Fin (real (length tu))))) (Fin 1)"
  "uplift_u_bound (uplift_kpis self e a tu cu b1 b2)
     = fl_sub (fl_div (Fin (test_cvr (uplift_kpis self e a tu cu b1 b2)))
         (fl_div (fl_mul (fl_mul (fst b1) (Fin (real (length cu))))
                    (Fin (ratio (uplift_kpis self e a tu cu b1 b2))))
            (Fin (real (length tu))))) (Fin 1)"
  by (simp_all add: uplift_kpis_def Let_def)


lemma bootstrap_mean_ci_returns:
  assumes "0 < confidence_level self" and "confidence_level self < 1"
    and "1 \<le> bootstrap_size self"
    and "1 + confidence_level self < of_int (bootstrap_size self) * (1 - confidence_level self)"
  shows "\<exists>b g'. Helpers_bootstrap_mean_ci self d g sample = Inr (b, g')"
proof -
  have n0: "0 \<le> bootstrap_size self" using assms(3) by simp
  note l = lower_index_floor[OF assms(2) n0]
  note u = upper_index_floor[OF assms(1,2) n0]
  have u0: "0 \<le> upper_index self" using l(2) u(2) by simp
  have ul: "upper_index self < bootstrap_size self"
    using upper_index_less_iff[OF assms(1,2) n0] assms(4) by simp
  then have ll: "lower_index self < bootstrap_size self" using u(2) by simp
  show ?thesis
    using ul ll by (simp add: bootstrap_mean_ci_nonneg[OF l(2) u0] Let_def)
qed

subsection \<open>Slices without test users or without control users\<close>

lemma uplift_KeyError:
  assumes "filter (\<lambda>r. u_ab_test_group r = TEST) (slice_users df attrs) = []
           \<or> filter (\<lambda>r. u_ab_test_group r = CONTROL) (slice_users df attrs) = []"
  shows "Helpers_uplift self e df attrs name g = Inl KeyError"
proof (cases "get_group (slice_users df attrs) TEST")
  case (Inl err)
  then show ?thesis using get_group_Inl[OF Inl] by (simp add: uplift_unfold)
next
  case (Inr tu)
  then have "filter (\<lambda>r. u_ab_test_group r = TEST) (slice_users df attrs) \<noteq> []"
    by (auto simp: get_group_Inr)
  with assms have "get_group (slice_users df attrs) CONTROL = Inl KeyError"
    by (simp add: get_group_KeyError)
  with Inr show ?thesis by (simp add: uplift_unfold)
qed

lemma uplift_never_None: "Helpers_uplift self e df attrs name g \<noteq> Inr (None, g')"
  by (simp add: uplift_unfold split: sum.splits prod.splits)

text \<open>
  With the name \<open>CONFIDENCE_LEVEL\<close> unbound, as \<open>helpers.py\<close> leaves it, building the
  dictionary raises: no slice is reported.
\<close>

lemma uplift_unbound_CONFIDENCE_LEVEL:
  assumes "CONFIDENCE_LEVEL e = None"
  shows "Helpers_uplift self e df attrs name g \<noteq> Inr res"
  using assms by (auto simp: uplift_unfold split: sum.splits prod.splits)

lemma uplift_InrD:
  assumes "Helpers_uplift self e df attrs name g = Inr res"
  shows "\<exists>k g1. res = (Some (name, k), g1)"
  using assms by (auto simp: uplift_unfold split: sum.splits prod.splits if_splits)

lemma uplift_groups_error:
  assumes "(gname, campaigns) \<in> set gs"
    and "filter (\<lambda>r. u_ab_test_group r = TEST)
           (slice_users (filter (\<lambda>r. campaign_id r \<in> set campaigns) df) attrs) = []
         \<or> filter (\<lambda>r. u_ab_test_group r = CONTROL)
           (slice_users (filter (\<lambda>r. campaign_id r \<in> set campaigns) df) attrs) = []"
  shows "\<exists>err. uplift_groups self e df attrs gs report g = Inl err"
  using assms(1)
proof (induction gs arbitrary: report g)
  case Nil
  then show ?case by simp
next
  case (Cons p gs)
  obtain n cs where p: "p = (n, cs)" by (cases p)
  show ?case
  proof (cases "Helpers_uplift self e (filter (\<lambda>r. campaign_id r \<in> set cs) df) attrs n g")
    case (Inl err)
    then show ?thesis by (simp add: p)
  next
    case (Inr res)
    obtain col g1 where res: "res = (col, g1)" by (cases res)
    have "p \<noteq> (gname, campaigns)"
      using Inr uplift_KeyError[OF assms(2), of self e n g] by (auto simp: p)
    with Cons.prems have "(gname, campaigns) \<in> set gs" by simp
    from Cons.IH[OF this] show ?thesis using Inr by (simp add: p res)
  qed
qed

lemma uplift_campaigns_error:
  assumes "c \<in> set cs"
    and "filter (\<lambda>r. u_ab_test_group r = TEST)
           (slice_users (filter (\<lambda>r. campaign_id r = c) df) attrs) = []
         \<or> filter (\<lambda>r. u_ab_test_group r = CONTROL)
           (slice_users (filter (\<lambda>r. campaign_id r = c) df) attrs) = []"
  shows "\<exists>err. uplift_campaigns self e df attrs cs report g = Inl err"
  using assms(1)
proof (induction cs arbitrary: report g)
  case Nil
  then show ?case by simp
next
  case (Cons c' cs)
  show ?case
  proof (cases "Helpers_uplift self e (filter (\<lambda>r. campaign_id r = c') df) attrs
                  (''c_'' @ py_str c') g")
    case (Inl err)
    then show ?thesis by (simp add: Let_def)
  next
    case (Inr res)
    obtain col g1 where res: "res = (col, g1)" by (cases res)
    have "c' \<noteq> c"
      using Inr uplift_KeyError[OF assms(2), of self e "''c_'' @ py_str c'" g] by auto
    with Cons.prems have "c \<in> set cs" by simp
    from Cons.IH[OF this] show ?thesis using Inr by (simp add: Let_def res)
  qed
qed

text \<open>
  C1, as the code has it. A slice whose users frame has no test user, or no control
  user, is not skipped: \<open>get_group\<close> raises \<open>KeyError\<close> before the size checks are
  reached (which therefore never return \<open>None\<close>, see \<open>uplift_never_None\<close>). For the
  total slice the report computation ends with that \<open>KeyError\<close>; for a named group
  or a campaign it ends with an exception as well, so no remaining slice is computed.
\<close>

theorem degenerate_slice_raises:
  assumes "filter (\<lambda>r. u_ab_test_group r = TEST) (slice_users slice attrs) = []
           \<or> filter (\<lambda>r. u_ab_test_group r = CONTROL) (slice_users slice attrs) = []"
  shows "Helpers_uplift self e slice attrs name g = Inl KeyError
       \<and> (slice = df \<longrightarrow> Helpers_uplift_report self e df attrs g = Inl KeyError)
       \<and> ((\<exists>(gname, campaigns) \<in> set (groups self).
              slice = filter (\<lambda>r. campaign_id r \<in> set campaigns) df)
            \<longrightarrow> (\<exists>err. Helpers_uplift_report self e df attrs g = Inl err))
       \<and> (per_campaign_results self
             \<and> (\<exists>c \<in> set (map campaign_id df). slice = filter (\<lambda>r. campaign_id r = c) df)
            \<longrightarrow> (\<exists>err. Helpers_uplift_report self e df attrs g = Inl err))"
proof (intro conjI impI)
  show "Helpers_uplift self e slice attrs name g = Inl KeyError"
    using assms by (rule uplift_KeyError)
next
  assume "slice = df"
  then show "Helpers_uplift_report self e df attrs g = Inl KeyError"
    using uplift_KeyError[OF assms, of self e "''total''" g]
    by (simp add: Helpers_uplift_report_def)
next
  assume "\<exists>(gname, campaigns) \<in> set (groups self).
            slice = filter (\<lambda>r. campaign_id r \<in> set campaigns) df"
  then obtain gname campaigns where m: "(gname, campaigns) \<in> set (groups self)"
    and s: "slice = filter (\<lambda>r. campaign_id r \<in> set campaigns) df"
    by auto
  from m have ne: "groups self \<noteq> []" by auto
  show "\<exists>err. Helpers_uplift_report self e df attrs g = Inl err"
  proof (cases "Helpers_uplift self e df attrs ''total'' g")
    case (Inl err)
    then show ?thesis by (simp add: Helpers_uplift_report_def)
  next
    case (Inr res)
    then obtain n k g1 where res: "res = (Some (n, k), g1)"
      using uplift_InrD by blast
    obtain err where "uplift_groups self e df attrs (groups self) [(n, Some k)] g1 = Inl err"
      using uplift_groups_error[OF m assms[unfolded s]] by blast
    then show ?thesis using Inr ne by (simp add: Helpers_uplift_report_def res)
  qed
next
  assume "per_campaign_results self
    \<and> (\<exists>c \<in> set (map campaign_id df). slice = filter (\<lambda>r. campaign_id r = c) df)"
  then obtain c where pc: "per_campaign_results self" and c: "c \<in> set (map campaign_id df)"
    and s: "slice = filter (\<lambda>r. campaign_id r = c) df"
    by auto
  have "(\<lambda>c. c) ` set (drop_duplicates (\<lambda>c. c) (map campaign_id df)) = (\<lambda>c. c) ` set (map campaign_id df)"
    by (rule keys_drop_duplicates)
  with c have c': "c \<in> set (drop_duplicates (\<lambda>c. c) (map campaign_id df))" by simp
  show "\<exists>err. Helpers_uplift_report self e df attrs g = Inl err"
  proof (cases "Helpers_uplift self e df attrs ''total'' g")
    case (Inl err)
    then show ?thesis by (simp add: Helpers_uplift_report_def)
  next
    case (Inr res)
    then obtain n k g1 where res: "res = (Some (n, k), g1)"
      using uplift_InrD by blast
    show ?thesis
    proof (cases "if groups self \<noteq> []
                 then uplift_groups self e df attrs (groups self) [(n, Some k)] g1
                 else Inr ([(n, Some k)], g1)")
      case (Inl err)
      then show ?thesis using Inr by (simp add: Helpers_uplift_report_def res)
    next
      case r1: (Inr res1)
      obtain report1 g2 where res1: "res1 = (report1, g2)" by (cases res1)
      obtain err where
        "uplift_campaigns self e df attrs (drop_duplicates (\<lambda>c. c) (map campaign_id df)) report1 g2
           = Inl err"
        using uplift_campaigns_error[OF c' assms[unfolded s]] by blast
      then show ?thesis using Inr r1 pc by (simp add: Helpers_uplift_report_def res res1)
    qed
  qed
qed


subsection \<open>The reported KPIs\<close>

lemma uplift_returns:
  assumes "0 < confidence_level self" and "confidence_level self < 1"
    and "1 \<le> bootstrap_size self"
    and "1 + confidence_level self < of_int (bootstrap_size self) * (1 - confidence_level self)"
    and "CONFIDENCE_LEVEL e \<noteq> None"
    and "get_group (slice_users df attrs) TEST = Inr tu"
    and "get_group (slice_users df attrs) CONTROL = Inr cu"
    and "0 < sum_list (map conversion_count cu)"
  shows "\<exists>b1 b2 g2. Helpers_uplift self e df attrs name g =
           Inr (Some (name, uplift_kpis self e (Helpers_calculate_ad_spend df) tu cu b1 b2), g2)"
proof -
  obtain b1 g1 where b1:
    "Helpers_bootstrap_mean_ci self (draws e) g (map (\<lambda>r. of_int (conversion_count r)) cu)
       = Inr (b1, g1)"
    using bootstrap_mean_ci_returns[OF assms(1-4)] by blast
  obtain b2 g2 where b2:
    "Helpers_bootstrap_mean_ci self (draws e) g1 (map revenue_eur cu) = Inr (b2, g2)"
    using bootstrap_mean_ci_returns[OF assms(1-4)] by blast
  have "cu \<noteq> []" using assms(7) by (auto simp: get_group_Inr)
  then have "0 < control_cvr (uplift_kpis self e (Helpers_calculate_ad_spend df) tu cu b1 b2)"
    using assms(8) by (simp add: kpis_cvr)
  then have "Helpers_uplift self e df attrs name g =
      Inr (Some (name, uplift_kpis self e (Helpers_calculate_ad_spend df) tu cu b1 b2), g2)"
    using assms(5-7) b1 b2 by (simp add: uplift_unfold)
  then show ?thesis by blast
qed

lemma uplift_SomeE:
  assumes "Helpers_uplift self e df attrs name g = Inr (Some (n, k), g')"
  obtains tu cu b1 b2 g1 where
    "get_group (slice_users df attrs) TEST = Inr tu"
    "get_group (slice_users df attrs) CONTROL = Inr cu"
    "Helpers_bootstrap_mean_ci self (draws e) g (map (\<lambda>r. of_int (conversion_count r)) cu)
       = Inr (b1, g1)"
    "Helpers_bootstrap_mean_ci self (draws e) g1 (map revenue_eur cu) = Inr (b2, g')"
    "k = uplift_kpis self e (Helpers_calculate_ad_spend df) tu cu b1 b2"
    "0 < control_cvr k" "n = name" "CONFIDENCE_LEVEL e \<noteq> None"
  using assms by (auto simp: uplift_unfold split: sum.splits prod.splits if_splits)

lemma fl_less_div_zero:
  "fl_less (fl_div (Fin a) (Fin b)) (Fin 0) \<longleftrightarrow> 0 < a \<and> b < 0 \<or> a < 0 \<and> 0 \<le> b"
  by (auto simp: divide_less_0_iff not_less)

lemma calculate_ad_spend_nonneg:
  assumes "\<forall>r \<in> set df. \<forall>c. cost_eur r = Some c \<longrightarrow> 0 \<le> c"
  shows "0 \<le> Helpers_calculate_ad_spend df"
proof -
  have "0 \<le> nansum (map cost_eur rows)" if "set rows \<subseteq> set df" for rows :: "event list"
    using that
  proof (induction rows)
    case Nil
    then show ?case by simp
  next
    case (Cons r rows)
    then show ?case using assms by (cases "cost_eur r") auto
  qed
  then show ?thesis by (simp add: Helpers_calculate_ad_spend_def Let_def)
qed

text \<open>
  C2, as the code has it. The code tests the quotient, not the estimate: the reported
  \<open>cost_per_incremental_converter_estimate\<close> is the sentinel exactly when
  \<open>ad_spend / incremental_converters_estimate\<close> is below zero, that is when the ad
  spend is positive and the estimate negative (or the ad spend negative and the
  estimate not); with costs that are not negative, exactly when the ad spend is
  positive and the estimate negative. Otherwise it is the float
  \<open>ad_spend / incremental_converters_estimate\<close>, and
  \<open>incremental_converters_estimate = test_converters - control_converters * ratio\<close>.
\<close>

theorem cost_per_incremental_converter_sentinel:
  assumes "Helpers_uplift self e df attrs name g = Inr (Some (n, k), g')"
  shows "(cost_per_incremental_converter_estimate k = Str negative_converters)
           = (0 < ad_spend k \<and> incremental_converters_estimate k < 0
              \<or> ad_spend k < 0 \<and> 0 \<le> incremental_converters_estimate k)
       \<and> (cost_per_incremental_converter_estimate k \<noteq> Str negative_converters \<longrightarrow>
            cost_per_incremental_converter_estimate k
              = Num (fl_div (Fin (ad_spend k)) (Fin (incremental_converters_estimate k))))
       \<and> incremental_converters_estimate k
           = of_int (test_converters k) - of_int (control_converters k) * ratio k
       \<and> ad_spend k = Helpers_calculate_ad_spend df
       \<and> ((\<forall>r \<in> set df. \<forall>c. cost_eur r = Some c \<longrightarrow> 0 \<le> c) \<longrightarrow>
            (cost_per_incremental_converter_estimate k = Str negative_converters)
              = (0 < ad_spend k \<and> incremental_converters_estimate k < 0))"
proof -
  from assms obtain tu cu b1 b2 where
    k: "k = uplift_kpis self e (Helpers_calculate_ad_spend df) tu cu b1 b2"
    by (rule uplift_SomeE)
  have ad: "ad_spend k = Helpers_calculate_ad_spend df" by (simp add: k)
  have ice: "incremental_converters_estimate k
           = of_int (test_converters k) - of_int (control_converters k) * ratio k"
    unfolding k by (rule kpis_incremental_converters_estimate)
  have cost: "cost_per_incremental_converter_estimate k
      = (if fl_less (fl_div (Fin (ad_spend k)) (Fin (incremental_converters_estimate k))) (Fin 0)
         then Str negative_converters
         else Num (fl_div (Fin (ad_spend k)) (Fin (incremental_converters_estimate k))))"
    unfolding k by (simp add: kpis_cost_estimate Let_def)
  have iff: "(cost_per_incremental_converter_estimate k = Str negative_converters)
           = (0 < ad_spend k \<and> incremental_converters_estimate k < 0
              \<or> ad_spend k < 0 \<and> 0 \<le> incremental_converters_estimate k)"
    unfolding cost fl_less_div_zero[symmetric] by simp
  have nn: "(cost_per_incremental_converter_estimate k = Str negative_converters)
              = (0 < ad_spend k \<and> incremental_converters_estimate k < 0)"
    if "\<forall>r \<in> set df. \<forall>c. cost_eur r = Some c \<longrightarrow> 0 \<le> c"
  proof -
    from that have "0 \<le> ad_spend k" unfolding ad by (rule calculate_ad_spend_nonneg)
    then show ?thesis unfolding iff by auto
  qed
  have num: "cost_per_incremental_converter_estimate k
              = Num (fl_div (Fin (ad_spend k)) (Fin (incremental_converters_estimate k)))"
    if "cost_per_incremental_converter_estimate k \<noteq> Str negative_converters"
    using that cost by (simp split: if_splits)
  from iff num ice ad nn show ?thesis by (intro conjI impI)
qed


lemma default_config:
  "0 < confidence_level (Helpers_init gs pc (19 / 20) 10000)"
  "confidence_level (Helpers_init gs pc (19 / 20) 10000) < 1"
  "1 \<le> bootstrap_size (Helpers_init gs pc (19 / 20) 10000)"
  "1 + confidence_level (Helpers_init gs pc (19 / 20) 10000)
     < of_int (bootstrap_size (Helpers_init gs pc (19 / 20) 10000))
       * (1 - confidence_level (Helpers_init gs pc (19 / 20) 10000))"
  by (simp_all add: Helpers_init_def)

lemma example_env_bound: "CONFIDENCE_LEVEL example_env \<noteq> None"
  by (simp add: example_env_def)

lemma example_groups:
  "get_group (slice_users example_marks example_attributions) TEST
     = Inr [\<lparr>u_user_id = 1, u_ab_test_group = True, conversion_count = 0, revenue_eur = 0\<rparr>]"
  "get_group (slice_users example_marks example_attributions) CONTROL
     = Inr [\<lparr>u_user_id = 2, u_ab_test_group = False, conversion_count = 1, revenue_eur = 1000000\<rparr>]"
  "get_group (slice_users (example_marks @ example_spend) example_attributions) TEST
     = Inr [\<lparr>u_user_id = 1, u_ab_test_group = True, conversion_count = 0, revenue_eur = 0\<rparr>]"
  "get_group (slice_users (example_marks @ example_spend) example_attributions) CONTROL
     = Inr [\<lparr>u_user_id = 2, u_ab_test_group = False, conversion_count = 1, revenue_eur = 1000000\<rparr>]"
  "get_group (slice_users example_marks example_attributions_test) TEST
     = Inr [\<lparr>u_user_id = 1, u_ab_test_group = True, conversion_count = 1, revenue_eur = 1000000\<rparr>]"
  "get_group (slice_users example_marks example_attributions_test) CONTROL
     = Inr [\<lparr>u_user_id = 2, u_ab_test_group = False, conversion_count = 0, revenue_eur = 0\<rparr>]"
  by code_simp+

lemma example_ad_spend:
  "Helpers_calculate_ad_spend example_marks = 0"
  "Helpers_calculate_ad_spend (example_marks @ example_spend) = 1"
  by code_simp+

text \<open>
  No ad spend, one test user without and one control user with a conversion: the
  estimate is \<open>-1\<close> and the reported cost is the number \<open>0 / -1\<close>, not the sentinel.
\<close>

theorem cost_not_sentinel_at_zero_ad_spend:
  "\<exists>k g'. Helpers_uplift (Helpers_init None False (19 / 20) 10000) example_env
             example_marks example_attributions ''total'' 0
           = Inr (Some (''total'', k), g')
        \<and> ad_spend k = 0
        \<and> incremental_converters_estimate k = - 1
        \<and> incremental_converters_estimate k < 0
        \<and> cost_per_incremental_converter_estimate k = Num (Fin 0)
        \<and> cost_per_incremental_converter_estimate k \<noteq> Str negative_converters"
proof -
  let ?tu = "[\<lparr>u_user_id = 1, u_ab_test_group = True, conversion_count = 0, revenue_eur = 0\<rparr>]"
  let ?cu = "[\<lparr>u_user_id = 2, u_ab_test_group = False, conversion_count = 1, revenue_eur = 1000000\<rparr>]"
  obtain b1 b2 g2 where r:
    "Helpers_uplift (Helpers_init None False (19 / 20) 10000) example_env
       example_marks example_attributions ''total'' 0
     = Inr (Some (''total'', uplift_kpis (Helpers_init None False (19 / 20) 10000) example_env
              (Helpers_calculate_ad_spend example_marks) ?tu ?cu b1 b2), g2)"
    using uplift_returns[OF default_config example_env_bound example_groups(1,2),
        of None False "''total''" 0]
    by force
  let ?k = "uplift_kpis (Helpers_init None False (19 / 20) 10000) example_env
              (Helpers_calculate_ad_spend example_marks) ?tu ?cu b1 b2"
  have ice: "incremental_converters_estimate ?k = - 1"
    by (simp add: kpis_incremental_converters_estimate)
  have ad: "ad_spend ?k = 0" by (simp add: example_ad_spend)
  have cost: "cost_per_incremental_converter_estimate ?k = Num (Fin 0)"
    unfolding kpis_cost_estimate ice by (simp add: example_ad_spend)
  show ?thesis using r ice ad cost by auto
qed

text \<open>The same users with an ad spend of 1: the sentinel.\<close>

theorem cost_per_incremental_converter_sentinel_witness:
  "\<exists>k g'. Helpers_uplift (Helpers_init None False (19 / 20) 10000) example_env
             (example_marks @ example_spend) example_attributions ''total'' 0
           = Inr (Some (''total'', k), g')
        \<and> ad_spend k = 1
        \<and> incremental_converters_estimate k = - 1
        \<and> cost_per_incremental_converter_estimate k = Str negative_converters"
proof -
  let ?tu = "[\<lparr>u_user_id = 1, u_ab_test_group = True, conversion_count = 0, revenue_eur = 0\<rparr>]"
  let ?cu = "[\<lparr>u_user_id = 2, u_ab_test_group = False, conversion_count = 1, revenue_eur = 1000000\<rparr>]"
  obtain b1 b2 g2 where r:
    "Helpers_uplift (Helpers_init None False (19 / 20) 10000) example_env
       (example_marks @ example_spend) example_attributions ''total'' 0
     = Inr (Some (''total'', uplift_kpis (Helpers_init None False (19 / 20) 10000) example_env
              (Helpers_calculate_ad_spend (example_marks @ example_spend)) ?tu ?cu b1 b2), g2)"
    using uplift_returns[OF default_config example_env_bound example_groups(3,4),
        of None False "''total''" 0]
    by force
  let ?k = "uplift_kpis (Helpers_init None False (19 / 20) 10000) example_env
              (Helpers_calculate_ad_spend (example_marks @ example_spend)) ?tu ?cu b1 b2"
  have ice: "incremental_converters_estimate ?k = - 1"
    by (simp add: kpis_incremental_converters_estimate)
  have ad: "ad_spend ?k = 1" by (simp add: example_ad_spend)
  from cost_per_incremental_converter_sentinel[OF r]
  have "(cost_per_incremental_converter_estimate ?k = Str negative_converters)
           = (0 < ad_spend ?k \<and> incremental_converters_estimate ?k < 0
              \<or> ad_spend ?k < 0 \<and> 0 \<le> incremental_converters_estimate ?k)"
    by (rule conjunct1)
  then have "cost_per_incremental_converter_estimate ?k = Str negative_converters"
    unfolding ice ad by simp
  with r ice ad show ?thesis by auto
qed

text \<open>
  C6, as the code has it. With both groups present and no conversion in the control
  group (\<open>control_cvr = 0\<close>), \<open>_uplift\<close> raises \<open>UnboundLocalError\<close> on
  \<open>uplift_l_bound\<close> instead of reporting a CVR uplift of 0 (here for a configuration
  whose bootstrap indices are in range and with \<open>CONFIDENCE_LEVEL\<close> bound; otherwise
  an earlier exception is raised). What is reported when \<open>control_cvr > 0\<close> is in
  \<open>cvr_uplift_when_reported\<close>.
\<close>

theorem uplift_raises_without_control_conversions:
  assumes "0 < confidence_level self" and "confidence_level self < 1"
    and "1 \<le> bootstrap_size self"
    and "1 + confidence_level self < of_int (bootstrap_size self) * (1 - confidence_level self)"
    and "CONFIDENCE_LEVEL e \<noteq> None"
    and "get_group (slice_users df attrs) TEST = Inr tu"
    and "get_group (slice_users df attrs) CONTROL = Inr cu"
    and "sum_list (map conversion_count cu) = 0"
  shows "Helpers_uplift self e df attrs name g = Inl UnboundLocalError"
proof -
  obtain b1 g1 where b1:
    "Helpers_bootstrap_mean_ci self (draws e) g (map (\<lambda>r. of_int (conversion_count r)) cu)
       = Inr (b1, g1)"
    using bootstrap_mean_ci_returns[OF assms(1-4)] by blast
  obtain b2 g2 where b2:
    "Helpers_bootstrap_mean_ci self (draws e) g1 (map revenue_eur cu) = Inr (b2, g2)"
    using bootstrap_mean_ci_returns[OF assms(1-4)] by blast
  have "control_cvr (uplift_kpis self e (Helpers_calculate_ad_spend df) tu cu b1 b2) = 0"
    using assms(8) by (simp add: kpis_cvr)
  then show ?thesis
    using assms(5-7) b1 b2 by (simp add: uplift_unfold)
qed

text \<open>
  A test user with a conversion and a control user without one, default configuration.
\<close>

theorem uplift_raises_without_control_conversions_witness:
  "Helpers_uplift (Helpers_init None False (19 / 20) 10000) example_env example_marks
     example_attributions_test ''total'' 0 = Inl UnboundLocalError
   \<and> Helpers_uplift_report (Helpers_init None False (19 / 20) 10000) example_env example_marks
     example_attributions_test 0 = Inl UnboundLocalError"
proof -
  have "Helpers_uplift (Helpers_init None False (19 / 20) 10000) example_env example_marks
     example_attributions_test ''total'' 0 = Inl UnboundLocalError"
    using uplift_raises_without_control_conversions[OF default_config example_env_bound example_groups(5,6)]
    by simp
  then show ?thesis by (simp add: Helpers_uplift_report_def)
qed

lemma cvr_uplift_when_reported:
  assumes "Helpers_uplift self e df attrs name g = Inr (Some (n, k), g')"
  shows "0 < control_cvr k \<and> uplift_estimate k = test_cvr k / control_cvr k - 1
       \<and> (\<exists>l u g1. Helpers_bootstrap_mean_ci self (draws e) g
                       (map (\<lambda>r. of_int (conversion_count r))
                          (filter (\<lambda>r. u_ab_test_group r = CONTROL) (slice_users df attrs)))
                     = Inr ((l, u), g1)
            \<and> uplift_l_bound k
                = fl_sub (fl_div (Fin (test_cvr k))
                    (fl_div (fl_mul (fl_mul u (Fin (real (control_group_size k)))) (Fin (ratio k)))
                       (Fin (real (test_group_size k))))) (Fin 1)
            \<and> uplift_u_bound k
                = fl_sub (fl_div (Fin (test_cvr k))
                    (fl_div (fl_mul (fl_mul l (Fin (real (control_group_size k)))) (Fin (ratio k)))
                       (Fin (real (test_group_size k))))) (Fin 1))"
proof -
  from assms obtain tu cu b1 b2 g1 where
    cu: "get_group (slice_users df attrs) CONTROL = Inr cu"
    and b1: "Helpers_bootstrap_mean_ci self (draws e) g (map (\<lambda>r. of_int (conversion_count r)) cu)
       = Inr (b1, g1)"
    and k: "k = uplift_kpis self e (Helpers_calculate_ad_spend df) tu cu b1 b2"
    and pos: "0 < control_cvr k"
    by (rule uplift_SomeE)
  from cu have cu': "cu = filter (\<lambda>r. u_ab_test_group r = CONTROL) (slice_users df attrs)"
    by (simp add: get_group_Inr)
  have est: "uplift_estimate k = test_cvr k / control_cvr k - 1"
    using pos unfolding k by (simp add: kpis_uplift(1))
  obtain l u where b1': "b1 = (l, u)" by (cases b1)
  have lb: "uplift_l_bound k
                = fl_sub (fl_div (Fin (test_cvr k))
                    (fl_div (fl_mul (fl_mul u (Fin (real (control_group_size k)))) (Fin (ratio k)))
                       (Fin (real (test_group_size k))))) (Fin 1)"
    unfolding k kpis_uplift(2) by (simp add: b1')
  have ub: "uplift_u_bound k
                = fl_sub (fl_div (Fin (test_cvr k))
                    (fl_div (fl_mul (fl_mul l (Fin (real (control_group_size k)))) (Fin (ratio k)))
                       (Fin (real (test_group_size k))))) (Fin 1)"
    unfolding k kpis_uplift(3) by (simp add: b1')
  show ?thesis
    using pos est b1[unfolded cu' b1'] lb ub by blast
qed

text \<open>
  C9. For every slice that is reported,
  \<open>incremental_converters_estimate + control_converters * ratio = test_converters\<close>,
  where \<open>ratio = test_group_size / control_group_size\<close> and both sizes are positive.
  Floats being modelled by the reals they denote, the identity is exact here.
\<close>

theorem incremental_converters_identity:
  assumes "Helpers_uplift self e df attrs name g = Inr (Some (n, k), g')"
  shows "incremental_converters_estimate k + of_int (control_converters k) * ratio k
           = of_int (test_converters k)
       \<and> ratio k = real (test_group_size k) / real (control_group_size k)
       \<and> 0 < test_group_size k \<and> 0 < control_group_size k"
proof -
  from assms obtain tu cu b1 b2 where
    tu: "get_group (slice_users df attrs) TEST = Inr tu"
    and cu: "get_group (slice_users df attrs) CONTROL = Inr cu"
    and k: "k = uplift_kpis self e (Helpers_calculate_ad_spend df) tu cu b1 b2"
    by (rule uplift_SomeE)
  have "tu \<noteq> []" "cu \<noteq> []" using tu cu by (auto simp: get_group_Inr)
  then show ?thesis
    unfolding k by (simp add: kpis_incremental_converters_estimate)
qed

text \<open>The example slice: \<open>-1 + 1 * 1 = 0\<close>.\<close>

theorem incremental_converters_identity_witness:
  "\<exists>k g'. Helpers_uplift (Helpers_init None False (19 / 20) 10000) example_env
             example_marks example_attributions ''total'' 0
           = Inr (Some (''total'', k), g')
        \<and> incremental_converters_estimate k + of_int (control_converters k) * ratio k
           = of_int (test_converters k)
        \<and> ratio k = 1 \<and> control_converters k = 1 \<and> test_converters k = 0"
proof -
  let ?tu = "[\<lparr>u_user_id = 1, u_ab_test_group = True, conversion_count = 0, revenue_eur = 0\<rparr>]"
  let ?cu = "[\<lparr>u_user_id = 2, u_ab_test_group = False, conversion_count = 1, revenue_eur = 1000000\<rparr>]"
  obtain b1 b2 g2 where r:
    "Helpers_uplift (Helpers_init None False (19 / 20) 10000) example_env
       example_marks example_attributions ''total'' 0
     = Inr (Some (''total'', uplift_kpis (Helpers_init None False (19 / 20) 10000) example_env
              (Helpers_calculate_ad_spend example_marks) ?tu ?cu b1 b2), g2)"
    using uplift_returns[OF default_config example_env_bound example_groups(1,2),
        of None False "''total''" 0]
    by force
  from incremental_converters_identity[OF r] r show ?thesis by auto
qed


text \<open>
  Only a test user in the whole data set; and a data set with both groups whose named
  group \<open>A\<close> (campaign 8) has only a test user: the total is computed, then the
  slice raises.
\<close>

theorem degenerate_slice_raises_witness:
  "Helpers_uplift_report (Helpers_init None False (19 / 20) 10000) example_env
      example_campaign_8 example_attributions 0 = Inl KeyError
   \<and> Helpers_uplift (Helpers_init (Some [(''A'', [8])]) False (19 / 20) 10000) example_env
      (filter (\<lambda>r. campaign_id r \<in> set [8]) (example_marks @ example_campaign_8))
      example_attributions ''A'' 0 = Inl KeyError
   \<and> Helpers_uplift_report (Helpers_init (Some [(''A'', [8])]) False (19 / 20) 10000) example_env
      (example_marks @ example_campaign_8) example_attributions 0 = Inl KeyError"
proof -
  let ?h = "Helpers_init (Some [(''A'', [8])]) False (19 / 20) 10000"
  let ?df = "example_marks @ example_campaign_8"
  let ?slice = "filter (\<lambda>r. campaign_id r \<in> set [8]) ?df"
  have total_only_test:
    "filter (\<lambda>r. u_ab_test_group r = TEST) (slice_users example_campaign_8 example_attributions) = []
     \<or> filter (\<lambda>r. u_ab_test_group r = CONTROL)
          (slice_users example_campaign_8 example_attributions) = []"
    by code_simp
  have slice_only_test:
    "filter (\<lambda>r. u_ab_test_group r = TEST) (slice_users ?slice example_attributions) = []
     \<or> filter (\<lambda>r. u_ab_test_group r = CONTROL) (slice_users ?slice example_attributions) = []"
    by code_simp
  have a: "Helpers_uplift_report (Helpers_init None False (19 / 20) 10000) example_env
      example_campaign_8 example_attributions 0 = Inl KeyError"
    using degenerate_slice_raises[OF total_only_test,
        of "Helpers_init None False (19 / 20) 10000" example_env "''total''" 0 example_campaign_8]
    by simp
  have b: "Helpers_uplift ?h example_env ?slice example_attributions ''A'' g = Inl KeyError" for g
    using degenerate_slice_raises[OF slice_only_test, of ?h example_env "''A''" g ?df]
    by simp
  have groups: "get_group (slice_users ?df example_attributions) TEST
       = Inr [\<lparr>u_user_id = 1, u_ab_test_group = True, conversion_count = 0, revenue_eur = 0\<rparr>,
              \<lparr>u_user_id = 3, u_ab_test_group = True, conversion_count = 0, revenue_eur = 0\<rparr>]"
    "get_group (slice_users ?df example_attributions) CONTROL
       = Inr [\<lparr>u_user_id = 2, u_ab_test_group = False, conversion_count = 1, revenue_eur = 1000000\<rparr>]"
    by code_simp+
  obtain k g1 where total:
    "Helpers_uplift ?h example_env ?df example_attributions ''total'' 0 = Inr (Some (''total'', k), g1)"
    using uplift_returns[OF default_config example_env_bound groups,
        of "Some [(''A'', [8])]" False "''total''" 0]
    by force
  have gs: "groups ?h = [(''A'', [8])]" by (simp add: Helpers_init_def)
  have c: "Helpers_uplift_report ?h example_env ?df example_attributions 0 = Inl KeyError"
    unfolding Helpers_uplift_report_def total gs using b[of g1] by simp
  from a b[of 0] c show ?thesis by (intro conjI)
qed

end
